theory Spec2Isabelle
  imports Main "HOL-Library.AList" "HOL-Library.Multiset"
begin

section \<open>JavaScript values\<close>

text \<open>
  A message is what \<open>JSON.parse\<close> returns; \<open>JUndefined\<close> is the value of a missing
  property. Numbers are kept to the integers: no handler computes with a payload's numbers.
  An object lists its properties in insertion order. (JavaScript enumerates the keys that
  are array indices first, in ascending order; the lists here do not reorder them, and the
  statements below read properties by key.)
\<close>

datatype jsval =
    JUndefined
  | JNull
  | JBool bool
  | JNum int
  | JStr string
  | JArr "jsval list"
  | JObj "(string \<times> jsval) list"

fun truthy :: "jsval \<Rightarrow> bool" where
  "truthy JUndefined = False"
| "truthy JNull = False"
| "truthy (JBool b) = b"
| "truthy (JNum n) = (n \<noteq> 0)"
| "truthy (JStr s) = (s \<noteq> [])"
| "truthy (JArr xs) = True"
| "truthy (JObj kvs) = True"

text \<open>
  The values that a Map compares by value: everything but arrays and objects, which it
  compares by reference.
\<close>

fun primitive :: "jsval \<Rightarrow> bool" where
  "primitive (JArr xs) = False"
| "primitive (JObj kvs) = False"
| "primitive v = True"

text \<open>
  The values that a template literal \<open>`${v}`\<close> can convert to a string. An object parsed from
  JSON with an own property \<open>toString\<close> cannot: that property is not a function, and
  \<open>valueOf\<close> gives the object back, so the conversion raises TypeError. An array is joined,
  which converts each element other than null.
\<close>

fun stringifiable :: "jsval \<Rightarrow> bool" where
  "stringifiable (JArr xs) = list_all stringifiable xs"
| "stringifiable (JObj kvs) = (map_of kvs ''toString'' = None)"
| "stringifiable v = True"

text \<open>
  \<open>data.k\<close> on a value other than null: the handlers read \<open>type\<close>, \<open>roomId\<close>,
  \<open>roomName\<close> and \<open>targetClient\<close>, which only an object can have.
\<close>

definition property :: "jsval \<Rightarrow> string \<Rightarrow> jsval" where
  "property v k =
     (case v of
        JObj kvs \<Rightarrow> (case map_of kvs k of None \<Rightarrow> JUndefined | Some x \<Rightarrow> x)
      | _ \<Rightarrow> JUndefined)"

definition own_props :: "jsval \<Rightarrow> (string \<times> jsval) list" where
  "own_props v = (case v of JObj kvs \<Rightarrow> kvs | _ \<Rightarrow> [])"

text \<open>
  \<open>{ ...obj, ...src }\<close>: the properties of \<open>src\<close> are set one by one on the object built so
  far; a key that is already there keeps its place and takes the new value.
\<close>

definition spread :: "(string \<times> jsval) list \<Rightarrow> jsval \<Rightarrow> (string \<times> jsval) list" where
  "spread obj src = foldl (\<lambda>acc kv. AList.update (fst kv) (snd kv) acc) obj (own_props src)"

text \<open>\<open>JSON.stringify\<close> of an object literal leaves out the properties that are undefined.\<close>

definition stringify :: "(string \<times> jsval) list \<Rightarrow> jsval" where
  "stringify kvs = JObj (filter (\<lambda>kv. snd kv \<noteq> JUndefined) kvs)"

definition digit_char :: "nat \<Rightarrow> char" where
  "digit_char n = char_of (48 + n)"

function decimal :: "nat \<Rightarrow> string" where
  "decimal n = (if n < 10 then [digit_char n] else decimal (n div 10) @ [digit_char (n mod 10)])"
  by pat_completeness auto
termination
  by (relation "measure id") auto

section \<open>The receiving side of a chunked transfer (src/app.js)\<close>

text \<open>
  The browser application keeps one table, \<open>activeTransfers\<close>, from transfer id to
  session. The table does not exist before the first transfer-start message
  (\<open>this.activeTransfers = this.activeTransfers || new Map()\<close>), so it is an option.
  Everything the handlers do to the page (progress display, download link, notification)
  is appended to a log of effects, in the order of the calls.
  Messages are modelled in their decoded form, with the fields the handlers read.
\<close>

type_synonym transferId = string

datatype js_error = TypeError | RangeError

record transfer_start =
  ts_transferId :: transferId
  ts_fileName :: string
  ts_fileSize :: nat
  ts_totalChunks :: nat
  ts_from :: string

record file_chunk =
  fc_transferId :: transferId
  fc_chunkIndex :: nat
  fc_chunk :: string
  fc_isLast :: bool

record transfer =
  fileName :: string
  fileSize :: nat
  totalChunks :: nat
  chunks :: "string option list"
  receivedChunks :: nat
  from_client :: "string option"

datatype notice =
    Received_ok string
  | Downloaded_ok string
  | Receiving string
  | Legacy_received string
  | Cancelled

datatype effect =
    ShowProgress transferId string nat nat
  | UpdateProgress transferId nat nat
  | HideProgress transferId
  | Download string string
  | Notification notice
  | GenerateLocalQRCode
  | UpdateDeviceList
  | UpdateConnectionStatus string string
  | ScheduleReconnect
  | ConsoleLog
  | ConsoleError

record app =
  activeTransfers :: "(transferId \<rightharpoonup> transfer) option"
  app_clientId :: jsval
  app_roomId :: jsval
  app_serverInfo :: jsval
  networkDevices :: jsval
  connections :: "nat list"
  effects :: "effect list"

type_synonym app_result = "(js_error \<times> app) + app"

text \<open>
  \<open>new Array(n)\<close>: \<open>n\<close> empty slots; a length above \<open>2^32 - 1\<close> raises RangeError.
\<close>

definition new_Array :: "nat \<Rightarrow> js_error + string option list" where
  "new_Array n = (if n < 2 ^ 32 then Inr (replicate n None) else Inl RangeError)"

text \<open>
  \<open>a[i] = v\<close> on a JavaScript array: inside the array the slot is overwritten; past the
  end the array grows, the slots in between staying empty; an index that is no array
  index (\<open>2^32 - 1\<close> and above) sets a plain property, which \<open>join\<close> never reads.
\<close>

definition array_set :: "string option list \<Rightarrow> nat \<Rightarrow> string \<Rightarrow> string option list" where
  "array_set xs i v =
     (if i < length xs then xs[i := Some v]
      else if i < 2 ^ 32 - 1 then xs @ replicate (i - length xs) None @ [Some v]
      else xs)"

text \<open>\<open>a.join('')\<close>: an empty slot contributes the empty string.\<close>

definition join :: "string option list \<Rightarrow> string" where
  "join xs = concat (map (\<lambda>c. case c of None \<Rightarrow> [] | Some s \<Rightarrow> s) xs)"

definition log :: "effect list \<Rightarrow> app \<Rightarrow> app" where
  "log es a = a\<lparr>effects := effects a @ es\<rparr>"

definition handleTransferStart :: "app \<Rightarrow> transfer_start \<Rightarrow> app_result" where
  "handleTransferStart a d =
     (let m = (case activeTransfers a of None \<Rightarrow> Map.empty | Some m \<Rightarrow> m);
          a1 = a\<lparr>activeTransfers := Some m\<rparr>
      in case new_Array (ts_totalChunks d) of
           Inl e \<Rightarrow> Inl (e, a1)
         | Inr slots \<Rightarrow>
             Inr (log [ShowProgress (ts_transferId d) (ts_fileName d) 0 (ts_totalChunks d)]
               (a1\<lparr>activeTransfers := Some (m(ts_transferId d \<mapsto>
                  \<lparr>fileName = ts_fileName d, fileSize = ts_fileSize d,
                   totalChunks = ts_totalChunks d, chunks = slots,
                   receivedChunks = 0, from_client = None\<rparr>))\<rparr>)))"

definition completeFileTransfer :: "app \<Rightarrow> transferId \<Rightarrow> app_result" where
  "completeFileTransfer a tid =
     (case activeTransfers a of
        None \<Rightarrow> Inl (TypeError, a)
      | Some m \<Rightarrow>
          (case m tid of
             None \<Rightarrow> Inr a
           | Some t \<Rightarrow>
               Inr (log [Download (fileName t) (join (chunks t)), HideProgress tid,
                         Notification (Received_ok (fileName t))]
                     (a\<lparr>activeTransfers := Some (m(tid := None))\<rparr>))))"

text \<open>The slot write and the count of one chunk message, on the session object.\<close>

definition store_chunk :: "transfer \<Rightarrow> file_chunk \<Rightarrow> transfer" where
  "store_chunk t d =
     t\<lparr>chunks := array_set (chunks t) (fc_chunkIndex d) (fc_chunk d),
       receivedChunks := receivedChunks t + 1\<rparr>"

definition handleFileChunk :: "app \<Rightarrow> file_chunk \<Rightarrow> app_result" where
  "handleFileChunk a d =
     (case activeTransfers a of
        None \<Rightarrow> Inl (TypeError, a)
      | Some m \<Rightarrow>
          (case m (fc_transferId d) of
             None \<Rightarrow> Inr a
           | Some t \<Rightarrow>
               (let t' = store_chunk t d;
                    a1 = log [UpdateProgress (fc_transferId d) (receivedChunks t') (totalChunks t')]
                           (a\<lparr>activeTransfers := Some (m(fc_transferId d \<mapsto> t'))\<rparr>)
                in if fc_isLast d \<or> receivedChunks t' = totalChunks t'
                   then completeFileTransfer a1 (fc_transferId d)
                   else Inr a1)))"

definition cancelFileTransfer :: "app \<Rightarrow> transferId \<Rightarrow> app" where
  "cancelFileTransfer a tid =
     log [HideProgress tid, Notification Cancelled]
       (case activeTransfers a of
          None \<Rightarrow> a
        | Some m \<Rightarrow> a\<lparr>activeTransfers := Some (m(tid := None))\<rparr>)"

text \<open>
  The handlers of the same three messages when they come through the local server.
  The session records the sender, and a chunk's last-chunk flag is not read.
\<close>

definition handleLocalTransferStart :: "app \<Rightarrow> transfer_start \<Rightarrow> app_result" where
  "handleLocalTransferStart a d =
     (let m = (case activeTransfers a of None \<Rightarrow> Map.empty | Some m \<Rightarrow> m);
          a1 = a\<lparr>activeTransfers := Some m\<rparr>
      in case new_Array (ts_totalChunks d) of
           Inl e \<Rightarrow> Inl (e, a1)
         | Inr slots \<Rightarrow>
             Inr (log [ShowProgress (ts_transferId d) (ts_fileName d) 0 (ts_totalChunks d),
                       Notification (Receiving (ts_fileName d))]
               (a1\<lparr>activeTransfers := Some (m(ts_transferId d \<mapsto>
                  \<lparr>fileName = ts_fileName d, fileSize = ts_fileSize d,
                   totalChunks = ts_totalChunks d, chunks = slots,
                   receivedChunks = 0, from_client = Some (ts_from d)\<rparr>))\<rparr>)))"

definition completeLocalFileTransfer :: "app \<Rightarrow> transferId \<Rightarrow> app_result" where
  "completeLocalFileTransfer a tid =
     (case activeTransfers a of
        None \<Rightarrow> Inl (TypeError, a)
      | Some m \<Rightarrow>
          (case m tid of
             None \<Rightarrow> Inr a
           | Some t \<Rightarrow>
               Inr (log [Download (fileName t) (join (chunks t)), HideProgress tid,
                         Notification (Downloaded_ok (fileName t))]
                     (a\<lparr>activeTransfers := Some (m(tid := None))\<rparr>))))"

definition handleLocalFileChunk :: "app \<Rightarrow> file_chunk \<Rightarrow> app_result" where
  "handleLocalFileChunk a d =
     (case activeTransfers a of
        None \<Rightarrow> Inl (TypeError, a)
      | Some m \<Rightarrow>
          (case m (fc_transferId d) of
             None \<Rightarrow> Inr a
           | Some t \<Rightarrow>
               (let t' = store_chunk t d;
                    a1 = log [UpdateProgress (fc_transferId d) (receivedChunks t') (totalChunks t')]
                           (a\<lparr>activeTransfers := Some (m(fc_transferId d \<mapsto> t'))\<rparr>)
                in if receivedChunks t' = totalChunks t'
                   then completeLocalFileTransfer a1 (fc_transferId d)
                   else Inr a1)))"

text \<open>
  The dispatch of the messages that come over a PeerJS connection (\<open>receiveFile\<close>) and
  from the local server (\<open>handleLocalServerMessage\<close>, \<open>handleLocalFileTransfer\<close>), on
  decoded messages. The class defines neither \<open>handleTransferComplete\<close> nor
  \<open>handleLocalTransferComplete\<close>, so calling them raises TypeError.
\<close>

datatype peer_message =
    Transfer_start transfer_start
  | Peer_file_chunk file_chunk
  | Transfer_complete
  | Legacy string string

definition receiveFile :: "app \<Rightarrow> peer_message \<Rightarrow> app_result" where
  "receiveFile a msg =
     (case msg of
        Transfer_start d \<Rightarrow> handleTransferStart a d
      | Peer_file_chunk d \<Rightarrow> handleFileChunk a d
      | Transfer_complete \<Rightarrow> Inl (TypeError, a)
      | Legacy name content \<Rightarrow>
          Inr (log [Download name content, Notification (Legacy_received name)] a))"

datatype server_message =
    Welcome jsval jsval
  | Room_created jsval
  | Room_joined jsval
  | Client_joined
  | Client_left
  | Device_list jsval
  | File_transfer_start transfer_start
  | File_chunk file_chunk
  | File_complete
  | Webrtc_signal
  | Unknown_message

definition handleLocalFileTransfer :: "app \<Rightarrow> server_message \<Rightarrow> app_result" where
  "handleLocalFileTransfer a msg =
     (case msg of
        File_transfer_start d \<Rightarrow> handleLocalTransferStart a d
      | File_chunk d \<Rightarrow> handleLocalFileChunk a d
      | File_complete \<Rightarrow> Inl (TypeError, a)
      | _ \<Rightarrow> Inr a)"

definition handleLocalServerMessage :: "app \<Rightarrow> server_message \<Rightarrow> app_result" where
  "handleLocalServerMessage a msg =
     (case msg of
        Welcome cid info \<Rightarrow>
          Inr (log [GenerateLocalQRCode] (a\<lparr>app_clientId := cid, app_serverInfo := info\<rparr>))
      | Room_created rid \<Rightarrow> Inr (log [GenerateLocalQRCode] (a\<lparr>app_roomId := rid\<rparr>))
      | Room_joined rid \<Rightarrow> Inr (log [UpdateDeviceList] (a\<lparr>app_roomId := rid\<rparr>))
      | Client_joined \<Rightarrow> Inr (log [UpdateDeviceList] a)
      | Client_left \<Rightarrow> Inr (log [UpdateDeviceList] a)
      | Device_list devices \<Rightarrow> Inr (log [UpdateDeviceList] (a\<lparr>networkDevices := devices\<rparr>))
      | File_transfer_start d \<Rightarrow> handleLocalFileTransfer a msg
      | File_chunk d \<Rightarrow> handleLocalFileTransfer a msg
      | File_complete \<Rightarrow> handleLocalFileTransfer a msg
      | Webrtc_signal \<Rightarrow> Inr (log [ConsoleLog] a)
      | Unknown_message \<Rightarrow> Inr (log [ConsoleLog] a))"

text \<open>
  The listeners of the application's connections: \<open>ws.onmessage\<close> catches what the
  handler raises and logs it; \<open>ws.onclose\<close> shows the status and schedules a reconnect;
  the \<open>close\<close> listener of a PeerJS connection drops that connection from the list.
\<close>

definition ws_onmessage :: "app \<Rightarrow> server_message \<Rightarrow> app" where
  "ws_onmessage a msg =
     (case handleLocalServerMessage a msg of
        Inl (e, a') \<Rightarrow> log [ConsoleError] a'
      | Inr a' \<Rightarrow> a')"

definition ws_onclose :: "app \<Rightarrow> app" where
  "ws_onclose a =
     log [UpdateConnectionStatus ''connecting'' ''Reconnecting...'', ScheduleReconnect] a"

definition conn_onclose :: "app \<Rightarrow> nat \<Rightarrow> app" where
  "conn_onclose a conn =
     log [UpdateDeviceList] (a\<lparr>connections := filter (\<lambda>c. c \<noteq> conn) (connections a)\<rparr>)"

text \<open>
  A run of chunk messages through one handler. An exception that leaves a handler is
  not caught by the page; the run is cut there, so a theorem that a run ends in \<open>Inr\<close>
  also says that no message raised.
\<close>

fun receive_chunks :: "(app \<Rightarrow> file_chunk \<Rightarrow> app_result) \<Rightarrow> app \<Rightarrow> file_chunk list \<Rightarrow> app_result" where
  "receive_chunks h a [] = Inr a"
| "receive_chunks h a (d # ds) =
     (case h a d of Inl e \<Rightarrow> Inl e | Inr a' \<Rightarrow> receive_chunks h a' ds)"

text \<open>The files handed to the user: name and content of every download, in order.\<close>

fun downloads :: "effect list \<Rightarrow> (string \<times> string) list" where
  "downloads [] = []"
| "downloads (Download n c # es) = (n, c) # downloads es"
| "downloads (e # es) = downloads es"

text \<open>
  The chunk message for index \<open>i\<close> of a file cut into the chunks \<open>cs\<close>, for \<open>i\<close> below the
  number of chunks; \<open>fl\<close> says which indices carry the last-chunk flag. The sender of
  src/app.js (\<open>sendFile\<close>) flags the index \<open>totalChunks - 1\<close>.
\<close>

definition chunk_message :: "transferId \<Rightarrow> string list \<Rightarrow> (nat \<Rightarrow> bool) \<Rightarrow> nat \<Rightarrow> file_chunk" where
  "chunk_message tid cs fl i =
     \<lparr>fc_transferId = tid, fc_chunkIndex = i, fc_chunk = cs ! i, fc_isLast = fl i\<rparr>"

definition sendFile_flag :: "nat \<Rightarrow> nat \<Rightarrow> bool" where
  "sendFile_flag n i = (i = n - 1)"

text \<open>A whole transfer as the receiver sees it: the start message, then the chunk messages.\<close>

definition receive_transfer ::
  "(app \<Rightarrow> transfer_start \<Rightarrow> app_result) \<Rightarrow> (app \<Rightarrow> file_chunk \<Rightarrow> app_result) \<Rightarrow>
     app \<Rightarrow> transfer_start \<Rightarrow> file_chunk list \<Rightarrow> app_result" where
  "receive_transfer hs hc a d ds =
     (case hs a d of Inl e \<Rightarrow> Inl e | Inr a1 \<Rightarrow> receive_chunks hc a1 ds)"

definition delivered :: "app_result \<Rightarrow> (string \<times> string) list option" where
  "delivered r = (case r of Inl e \<Rightarrow> None | Inr a \<Rightarrow> Some (downloads (effects a)))"

definition session :: "app_result \<Rightarrow> transferId \<Rightarrow> transfer option" where
  "session r tid =
     (case r of
        Inl e \<Rightarrow> None
      | Inr a \<Rightarrow> (case activeTransfers a of None \<Rightarrow> None | Some m \<Rightarrow> m tid))"

definition fresh_app :: app where
  "fresh_app = \<lparr>activeTransfers = None, app_clientId = JUndefined, app_roomId = JUndefined,
     app_serverInfo = JUndefined, networkDevices = JUndefined, connections = [], effects = []\<rparr>"

text \<open>
  A two-chunk transfer, chunk messages for its index 0 and 1, and the receiver after the
  start message and one chunk for index 0.
\<close>

definition two_chunk_start :: transfer_start where
  "two_chunk_start = \<lparr>ts_transferId = ''t1'', ts_fileName = ''f'', ts_fileSize = 2,
     ts_totalChunks = 2, ts_from = ''A''\<rparr>"

definition chunk0 :: "string \<Rightarrow> file_chunk" where
  "chunk0 c = \<lparr>fc_transferId = ''t1'', fc_chunkIndex = 0, fc_chunk = c, fc_isLast = False\<rparr>"

definition chunk1 :: "string \<Rightarrow> bool \<Rightarrow> file_chunk" where
  "chunk1 c l = \<lparr>fc_transferId = ''t1'', fc_chunkIndex = 1, fc_chunk = c, fc_isLast = l\<rparr>"

definition half_session :: transfer where
  "half_session = \<lparr>fileName = ''f'', fileSize = 2, totalChunks = 2,
     chunks = [Some ''a'', None], receivedChunks = 1, from_client = None\<rparr>"

definition half_received :: app where
  "half_received = fresh_app\<lparr>activeTransfers := Some [''t1'' \<mapsto> half_session]\<rparr>"

text \<open>
  The run with a repeated index, for a start handler \<open>hs\<close> and a chunk handler \<open>hc\<close>: after
  the start and the first chunk for index 0 a session exists with slot 0 filled and slot 1
  empty; the second chunk for index 0 brings the count to the total while slot 1 is
  empty, and the two-message run hands over the file \<open>b\<close>.
\<close>

definition repeated_index_run ::
  "(app \<Rightarrow> transfer_start \<Rightarrow> app_result) \<Rightarrow> (app \<Rightarrow> file_chunk \<Rightarrow> app_result) \<Rightarrow> bool" where
  "repeated_index_run hs hc =
     (case session (receive_transfer hs hc fresh_app two_chunk_start [chunk0 ''a'']) ''t1'' of
        None \<Rightarrow> False
      | Some t1 \<Rightarrow>
          chunks t1 = [Some ''a'', None]
        \<and> receivedChunks (store_chunk t1 (chunk0 ''b'')) = totalChunks t1
        \<and> chunks (store_chunk t1 (chunk0 ''b'')) = [Some ''b'', None]
        \<and> join (chunks (store_chunk t1 (chunk0 ''b''))) = ''b'' @ []
        \<and> delivered (receive_transfer hs hc fresh_app two_chunk_start
              [chunk0 ''a'', chunk0 ''b'']) = Some [(''f'', ''b'')])"

section \<open>The local network server (src/unnamed/part_002)\<close>

subsection \<open>Server state\<close>

text \<open>
  \<open>clients\<close> and \<open>rooms\<close> are JavaScript Maps and a room's \<open>clients\<close> is a Set: both keep
  insertion order, so they are an association list and a list without duplicates.
  A connection's socket is named by the client id given to the connection;
  \<open>readyState\<close> is the state of each socket, which the server only reads, and \<open>sent\<close> logs
  every call of \<open>ws.send\<close>: the socket and the object that was serialised.
  A room id is whatever value the \<open>roomId\<close> property of a join message held. The Map
  compares ids that are arrays or objects by reference and the lists here compare them by
  structure: the model is exact for primitive room ids, and the general statements below
  about a room looked up by the id of a message are stated for primitive ids.
  \<open>connectedAt\<close> holds a Date, kept as the ISO string that \<open>JSON.stringify\<close> writes for it.
  \<open>uncaught\<close> is the exception that left a listener uncaught, after which the process has
  ended; the file installs no handler for uncaught exceptions.
\<close>

type_synonym clientId = string

datatype ready_state = CONNECTING | OPEN | CLOSING | CLOSED

record clientInfo =
  c_id :: clientId
  c_ip :: string
  c_userAgent :: string
  c_connectedAt :: string
  c_room :: jsval

record roomInfo =
  r_id :: jsval
  r_name :: jsval
  r_clients :: "clientId list"
  r_createdAt :: nat
  r_creator :: jsval

record server =
  port :: nat
  localIP :: string
  clients :: "(clientId \<times> clientInfo) list"
  rooms :: "(jsval \<times> roomInfo) list"
  readyState :: "clientId \<Rightarrow> ready_state"
  sent :: "(clientId \<times> jsval) list"
  uncaught :: "js_error option"

text \<open>
  What a handler returns: the state, or the exception it raised with the state at that
  point. \<open>state_of\<close> is the state in both cases, \<open>raises\<close> tells them apart.
\<close>

type_synonym server_result = "(js_error \<times> server) + server"

definition state_of :: "server_result \<Rightarrow> server" where
  "state_of r = (case r of Inl (e, s) \<Rightarrow> s | Inr s \<Rightarrow> s)"

definition raises :: "server_result \<Rightarrow> bool" where
  "raises r = (case r of Inl x \<Rightarrow> True | Inr s \<Rightarrow> False)"

text \<open>
  \<open>console.log\<close> of a template literal over the values \<open>vs\<close>: converting a value that is not
  \<open>stringifiable\<close> raises TypeError; otherwise nothing of the state changes.
\<close>

definition console_log :: "jsval list \<Rightarrow> server \<Rightarrow> server_result" where
  "console_log vs s = (if list_all stringifiable vs then Inr s else Inl (TypeError, s))"

definition set_add :: "'a \<Rightarrow> 'a list \<Rightarrow> 'a list" where
  "set_add x xs = (if x \<in> set xs then xs else xs @ [x])"

definition set_delete :: "'a \<Rightarrow> 'a list \<Rightarrow> 'a list" where
  "set_delete x xs = removeAll x xs"

definition ws_send :: "server \<Rightarrow> clientId \<Rightarrow> (string \<times> jsval) list \<Rightarrow> server" where
  "ws_send s ws message = s\<lparr>sent := sent s @ [(ws, stringify message)]\<rparr>"

subsection \<open>Handlers\<close>

definition broadcastToRoom ::
  "server \<Rightarrow> jsval \<Rightarrow> (string \<times> jsval) list \<Rightarrow> clientId option \<Rightarrow> server" where
  "broadcastToRoom s roomId message excludeClient =
     (case map_of (rooms s) roomId of
        None \<Rightarrow> s
      | Some room \<Rightarrow>
          foldl (\<lambda>s' ident.
                   if Some ident = excludeClient then s'
                   else (case map_of (clients s') ident of
                           None \<Rightarrow> s'
                         | Some client \<Rightarrow>
                             if readyState s' ident = OPEN then ws_send s' ident message else s'))
            s (r_clients room))"

definition client_left :: "clientId \<Rightarrow> clientId list \<Rightarrow> (string \<times> jsval) list" where
  "client_left clientId members =
     [(''type'', JStr ''client-left''), (''clientId'', JStr clientId),
      (''roomClients'', JArr (map JStr members))]"

definition leaveRoom :: "server \<Rightarrow> clientId \<Rightarrow> jsval \<Rightarrow> server_result" where
  "leaveRoom s clientId roomId =
     (case map_of (rooms s) roomId of
        None \<Rightarrow> Inr s
      | Some room \<Rightarrow>
          (let members = set_delete clientId (r_clients room);
               s1 = s\<lparr>rooms := AList.update roomId (room\<lparr>r_clients := members\<rparr>) (rooms s)\<rparr>
           in if length members = 0
              then console_log [roomId] (s1\<lparr>rooms := AList.delete roomId (rooms s1)\<rparr>)
              else Inr (broadcastToRoom s1 roomId (client_left clientId members) None)))"

definition client_joined :: "clientId \<Rightarrow> clientId list \<Rightarrow> (string \<times> jsval) list" where
  "client_joined clientId members =
     [(''type'', JStr ''client-joined''), (''clientId'', JStr clientId),
      (''roomClients'', JArr (map JStr members))]"

definition room_joined :: "jsval \<Rightarrow> clientId \<Rightarrow> clientId list \<Rightarrow> (string \<times> jsval) list" where
  "room_joined roomId clientId members =
     [(''type'', JStr ''room-joined''), (''roomId'', roomId),
      (''clients'', JArr (map JStr (filter (\<lambda>ident. ident \<noteq> clientId) members)))]"

text \<open>The room of a client as it stands before the join: left when the reference is truthy.\<close>

definition leave_current :: "server \<Rightarrow> clientId \<Rightarrow> clientInfo \<Rightarrow> server_result" where
  "leave_current s clientId client =
     (if truthy (c_room client) then leaveRoom s clientId (c_room client) else Inr s)"

text \<open>
  \<open>handleJoinRoom\<close> after the previous room has been left, on the state \<open>s1\<close> that leaving
  gave: the room is made if it is not there, the client is added and its reference set,
  the join is logged, the other members are notified and the joiner is answered.
\<close>

definition join_after_leave ::
  "server \<Rightarrow> clientId \<Rightarrow> clientInfo \<Rightarrow> jsval \<Rightarrow> nat \<Rightarrow> server_result" where
  "join_after_leave s1 clientId client roomId now =
     (let s2 = (if map_of (rooms s1) roomId = None
                then s1\<lparr>rooms := AList.update roomId
                       \<lparr>r_id = roomId, r_name = JUndefined, r_clients = [],
                        r_createdAt = now, r_creator = JUndefined\<rparr> (rooms s1)\<rparr>
                else s1)
      in case map_of (rooms s2) roomId of
           None \<Rightarrow> Inr s2
         | Some room \<Rightarrow>
             (let members = set_add clientId (r_clients room);
                  s3 = s2\<lparr>rooms := AList.update roomId (room\<lparr>r_clients := members\<rparr>) (rooms s2),
                          clients := AList.update clientId (client\<lparr>c_room := roomId\<rparr>) (clients s2)\<rparr>
              in case console_log [JStr clientId, roomId] s3 of
                   Inl e \<Rightarrow> Inl e
                 | Inr s3' \<Rightarrow>
                     Inr (ws_send (broadcastToRoom s3' roomId (client_joined clientId members)
                                    (Some clientId))
                            clientId (room_joined roomId clientId members))))"

definition handleJoinRoom :: "server \<Rightarrow> clientId \<Rightarrow> jsval \<Rightarrow> nat \<Rightarrow> server_result" where
  "handleJoinRoom s clientId roomId now =
     (case map_of (clients s) clientId of
        None \<Rightarrow> Inr s
      | Some client \<Rightarrow>
          (case leave_current s clientId client of
             Inl e \<Rightarrow> Inl e
           | Inr s1 \<Rightarrow> join_after_leave s1 clientId client roomId now))"

definition generateQRData :: "server \<Rightarrow> string \<Rightarrow> nat \<Rightarrow> jsval" where
  "generateQRData s roomId now =
     JObj [(''serverIP'', JStr (localIP s)), (''port'', JNum (int (port s))),
           (''roomId'', JStr roomId),
           (''url'', JStr (''http://'' @ localIP s @ '':'' @ decimal (port s) @ ''/?room='' @ roomId)),
           (''timestamp'', JNum (int now))]"

text \<open>
  \<open>generateRoomId()\<close> reads the clock and the random generator; the id it returns is the
  argument \<open>roomId\<close>.
\<close>

definition handleCreateRoom :: "server \<Rightarrow> clientId \<Rightarrow> jsval \<Rightarrow> string \<Rightarrow> nat \<Rightarrow> server" where
  "handleCreateRoom s clientId roomName roomId now =
     (let s1 = s\<lparr>rooms := AList.update (JStr roomId)
                  \<lparr>r_id = JStr roomId,
                   r_name = (if truthy roomName then roomName else JStr (''Room '' @ roomId)),
                   r_clients = [clientId], r_createdAt = now, r_creator = JStr clientId\<rparr>
                  (rooms s)\<rparr>
      in case map_of (clients s1) clientId of
           None \<Rightarrow> s1
         | Some client \<Rightarrow>
             ws_send (s1\<lparr>clients := AList.update clientId (client\<lparr>c_room := JStr roomId\<rparr>) (clients s1)\<rparr>)
               clientId
               [(''type'', JStr ''room-created''), (''roomId'', JStr roomId), (''name'', roomName),
                (''qrData'', generateQRData s1 roomId now)])"

definition handleWebRTCSignaling :: "server \<Rightarrow> clientId \<Rightarrow> jsval \<Rightarrow> server" where
  "handleWebRTCSignaling s clientId data =
     (case map_of (clients s) clientId of
        None \<Rightarrow> s
      | Some client \<Rightarrow>
          if \<not> truthy (c_room client) then s
          else broadcastToRoom s (c_room client)
                 (spread [(''type'', property data ''type''), (''from'', JStr clientId)] data)
                 (Some clientId))"

text \<open>\<open>this.clients.get(v)\<close>: the keys are strings, so only a string finds a client.\<close>

definition clients_get :: "server \<Rightarrow> jsval \<Rightarrow> (clientId \<times> clientInfo) option" where
  "clients_get s v =
     (case v of
        JStr k \<Rightarrow> (case map_of (clients s) k of None \<Rightarrow> None | Some c \<Rightarrow> Some (k, c))
      | _ \<Rightarrow> None)"

definition handleFileTransfer :: "server \<Rightarrow> clientId \<Rightarrow> jsval \<Rightarrow> server" where
  "handleFileTransfer s clientId data =
     (case map_of (clients s) clientId of
        None \<Rightarrow> s
      | Some client \<Rightarrow>
          if \<not> truthy (c_room client) then s
          else if truthy (property data ''targetClient'')
          then (case clients_get s (property data ''targetClient'') of
                  None \<Rightarrow> s
                | Some (k, target) \<Rightarrow>
                    if readyState s k = OPEN
                    then ws_send s k (AList.update ''from'' (JStr clientId) (spread [] data))
                    else s)
          else broadcastToRoom s (c_room client)
                 (AList.update ''from'' (JStr clientId) (spread [] data)) (Some clientId))"

definition handleDeviceDiscovery :: "server \<Rightarrow> clientId \<Rightarrow> server" where
  "handleDeviceDiscovery s clientId =
     (case map_of (clients s) clientId of
        None \<Rightarrow> s
      | Some client \<Rightarrow>
          ws_send s clientId
            [(''type'', JStr ''device-list''),
             (''devices'', JArr (map (\<lambda>(ident, info).
                  JObj (filter (\<lambda>kv. snd kv \<noteq> JUndefined)
                    [(''id'', JStr ident), (''name'', JStr (''Device '' @ take 8 ident)),
                     (''ip'', JStr (c_ip info)), (''connectedAt'', JStr (c_connectedAt info)),
                     (''room'', c_room info)]))
                (filter (\<lambda>(ident, info). ident \<noteq> clientId) (clients s)))),
             (''serverInfo'', JObj [(''ip'', JStr (localIP s)), (''port'', JNum (int (port s))),
                  (''clientCount'', JNum (int (length (clients s))))])])"

definition handleClientDisconnect :: "server \<Rightarrow> clientId \<Rightarrow> server_result" where
  "handleClientDisconnect s clientId =
     (case (case map_of (clients s) clientId of
              None \<Rightarrow> Inr s
            | Some client \<Rightarrow>
                if truthy (c_room client) then leaveRoom s clientId (c_room client) else Inr s) of
        Inl e \<Rightarrow> Inl e
      | Inr s1 \<Rightarrow> Inr (s1\<lparr>clients := AList.delete clientId (clients s1)\<rparr>))"

text \<open>
  \<open>handleMessage\<close>: reading \<open>data.type\<close> of \<open>null\<close> raises TypeError, before anything is
  changed; every other value has a \<open>type\<close> property or none. The default branch logs the
  type in a template literal.
\<close>

definition handleMessage :: "server \<Rightarrow> clientId \<Rightarrow> jsval \<Rightarrow> string \<Rightarrow> nat \<Rightarrow> server_result" where
  "handleMessage s clientId data roomId now =
     (case map_of (clients s) clientId of
        None \<Rightarrow> Inr s
      | Some client \<Rightarrow>
          if data = JNull \<or> data = JUndefined then Inl (TypeError, s)
          else (let kind = property data ''type'' in
            if kind = JStr ''join-room''
              then handleJoinRoom s clientId (property data ''roomId'') now
            else if kind = JStr ''create-room''
              then Inr (handleCreateRoom s clientId (property data ''roomName'') roomId now)
            else if kind = JStr ''webrtc-offer'' \<or> kind = JStr ''webrtc-answer''
                    \<or> kind = JStr ''webrtc-ice-candidate''
              then Inr (handleWebRTCSignaling s clientId data)
            else if kind = JStr ''file-transfer-start'' \<or> kind = JStr ''file-chunk''
                    \<or> kind = JStr ''file-complete''
              then Inr (handleFileTransfer s clientId data)
            else if kind = JStr ''device-discovery''
              then Inr (handleDeviceDiscovery s clientId)
            else console_log [kind] s))"

definition error_reply :: "(string \<times> jsval) list" where
  "error_reply = [(''type'', JStr ''error''), (''message'', JStr ''Invalid JSON message'')]"

text \<open>
  \<open>onWsConnection\<close> and the listeners it puts on a socket: \<open>on_message\<close> for a message,
  \<open>on_close\<close> for both the close and the error listener, which do the same.
  A payload is \<open>None\<close> when \<open>JSON.parse\<close> raises and the parsed value otherwise. The
  message listener catches what the handler raises and answers with the error reply, on
  the state the handler had reached; the other two catch nothing.
\<close>

definition onWsConnection ::
  "server \<Rightarrow> clientId \<Rightarrow> string \<Rightarrow> string \<Rightarrow> string \<Rightarrow> nat \<Rightarrow> server" where
  "onWsConnection s clientId ip userAgent connectedAt now =
     ws_send (s\<lparr>clients := AList.update clientId
                 \<lparr>c_id = clientId, c_ip = ip, c_userAgent = userAgent,
                  c_connectedAt = connectedAt, c_room = JNull\<rparr> (clients s)\<rparr>)
       clientId
       [(''type'', JStr ''welcome''), (''clientId'', JStr clientId),
        (''serverInfo'', JObj [(''ip'', JStr (localIP s)), (''port'', JNum (int (port s))),
             (''timestamp'', JNum (int now))])]"

definition on_message :: "server \<Rightarrow> clientId \<Rightarrow> jsval option \<Rightarrow> string \<Rightarrow> nat \<Rightarrow> server" where
  "on_message s clientId payload roomId now =
     (case payload of
        None \<Rightarrow> ws_send s clientId error_reply
      | Some data \<Rightarrow>
          (case handleMessage s clientId data roomId now of
             Inl (e, s') \<Rightarrow> ws_send s' clientId error_reply
           | Inr s' \<Rightarrow> s'))"

definition on_close :: "server \<Rightarrow> clientId \<Rightarrow> server" where
  "on_close s clientId =
     (case handleClientDisconnect s clientId of
        Inl (e, s') \<Rightarrow> s'\<lparr>uncaught := Some e\<rparr>
      | Inr s' \<Rightarrow> s')"

text \<open>
  What happens to the server, one event at a time. \<open>Socket\<close> is the network changing the
  state of a socket; a connection event carries the id that \<open>generateClientId()\<close> returns,
  the address, the user agent, the date and the clock; a message event carries the room id
  that \<open>generateRoomId()\<close> would return and the clock. Once an exception has been left
  uncaught there is no process to take an event.
\<close>

datatype event =
    Connection clientId string string string nat
  | Message clientId "jsval option" string nat
  | Close clientId
  | Socket clientId ready_state

fun listener :: "server \<Rightarrow> event \<Rightarrow> server" where
  "listener s (Connection c ip ua date now) = onWsConnection s c ip ua date now"
| "listener s (Message c payload roomId now) = on_message s c payload roomId now"
| "listener s (Close c) = on_close s c"
| "listener s (Socket c st) = s\<lparr>readyState := (readyState s)(c := st)\<rparr>"

definition step :: "server \<Rightarrow> event \<Rightarrow> server" where
  "step s e = (if uncaught s = None then listener s e else s)"

definition run :: "server \<Rightarrow> event list \<Rightarrow> server" where
  "run s es = foldl step s es"

definition new_server :: server where
  "new_server = \<lparr>port = 8080, localIP = ''192.168.0.2'', clients = [], rooms = [],
     readyState = (\<lambda>c. OPEN), sent = [], uncaught = None\<rparr>"

text \<open>The rooms whose member set holds a client, and the members of a room.\<close>

definition rooms_of :: "server \<Rightarrow> clientId \<Rightarrow> jsval list" where
  "rooms_of s c = map fst (filter (\<lambda>(k, room). c \<in> set (r_clients room)) (rooms s))"

definition members :: "server \<Rightarrow> jsval \<Rightarrow> clientId list option" where
  "members s roomId = map_option r_clients (map_of (rooms s) roomId)"

definition room_ref :: "server \<Rightarrow> clientId \<Rightarrow> jsval option" where
  "room_ref s c = map_option c_room (map_of (clients s) c)"

text \<open>
  Who gets a broadcast: the members other than the excluded one that are registered and
  whose socket is open.
\<close>

definition recipients :: "server \<Rightarrow> clientId option \<Rightarrow> clientId list \<Rightarrow> clientId list" where
  "recipients s excludeClient cs =
     filter (\<lambda>c. Some c \<noteq> excludeClient \<and> map_of (clients s) c \<noteq> None \<and> readyState s c = OPEN) cs"

text \<open>What is put on the wire for a relayed file-transfer message and a relayed signal.\<close>

definition file_relay :: "clientId \<Rightarrow> jsval \<Rightarrow> jsval" where
  "file_relay c data = stringify (AList.update ''from'' (JStr c) (spread [] data))"

definition signal_relay :: "clientId \<Rightarrow> jsval \<Rightarrow> jsval" where
  "signal_relay c data =
     stringify (spread [(''type'', property data ''type''), (''from'', JStr c)] data)"

text \<open>
  Runs used as examples: one client; that client creating two rooms; three clients; and
  of these, A having created room \<open>r1\<close> and B having joined it, C in no room.
\<close>

definition create_room :: "jsval option" where
  "create_room = Some (JObj [(''type'', JStr ''create-room''), (''roomName'', JStr ''demo'')])"

definition join_room :: "string \<Rightarrow> jsval option" where
  "join_room r = Some (JObj [(''type'', JStr ''join-room''), (''roomId'', JStr r)])"

definition one_client :: server where
  "one_client = run new_server [Connection ''A'' ''10.0.0.1'' ''ua'' ''2025-01-01T00:00:00.000Z'' 0]"

definition created_twice :: server where
  "created_twice =
     run one_client [Message ''A'' create_room ''r1'' 1, Message ''A'' create_room ''r2'' 2]"

definition three_clients :: server where
  "three_clients = run new_server
     [Connection ''A'' ''10.0.0.1'' ''ua'' ''2025-01-01T00:00:00.000Z'' 0,
      Connection ''B'' ''10.0.0.2'' ''ua'' ''2025-01-01T00:00:01.000Z'' 1000,
      Connection ''C'' ''10.0.0.3'' ''ua'' ''2025-01-01T00:00:02.000Z'' 2000]"

definition shared_room :: server where
  "shared_room =
     run three_clients [Message ''A'' create_room ''r1'' 1, Message ''B'' (join_room ''r1'') ''r2'' 2]"

text \<open>The messages a run appends to the log of a server.\<close>

definition newly_sent :: "server \<Rightarrow> event list \<Rightarrow> (clientId \<times> jsval) list" where
  "newly_sent s es = drop (length (sent s)) (sent (run s es))"

text \<open>A receiving application holding a session of the transfer that client A started.\<close>

definition receiver :: app where
  "receiver = ws_onmessage fresh_app (File_transfer_start two_chunk_start)"

definition sender_of :: "app \<Rightarrow> transferId \<Rightarrow> string option" where
  "sender_of a tid =
     (case activeTransfers a of
        None \<Rightarrow> None
      | Some m \<Rightarrow> (case m tid of None \<Rightarrow> None | Some t \<Rightarrow> from_client t))"

text \<open>Every room of the table has a member.\<close>

definition rooms_nonempty :: "server \<Rightarrow> bool" where
  "rooms_nonempty s = (\<forall>r ms. members s r = Some ms \<longrightarrow> ms \<noteq> [])"

text \<open>
  Every room id is truthy and every member of a room is a registered client whose room
  reference names that room.
\<close>

definition rooms_consistent :: "server \<Rightarrow> bool" where
  "rooms_consistent s =
     (\<forall>r ms. members s r = Some ms \<longrightarrow> truthy r \<and> (\<forall>c \<in> set ms. room_ref s c = Some r))"

text \<open>
  Events under which that is kept: a connection gets an id that is not registered; a
  create-room message comes from a client whose room reference is falsy, and
  \<open>generateRoomId\<close> returns a non-empty id; a join-room message names a truthy, primitive
  room id.
\<close>

fun orderly :: "server \<Rightarrow> event \<Rightarrow> bool" where
  "orderly s (Connection c ip ua date now) = (map_of (clients s) c = None)"
| "orderly s (Message c None roomId now) = True"
| "orderly s (Message c (Some data) roomId now) =
     (if property data ''type'' = JStr ''create-room''
      then roomId \<noteq> [] \<and> (case room_ref s c of None \<Rightarrow> True | Some r \<Rightarrow> \<not> truthy r)
      else if property data ''type'' = JStr ''join-room''
      then truthy (property data ''roomId'') \<and> primitive (property data ''roomId'')
      else True)"
| "orderly s (Close c) = True"
| "orderly s (Socket c st) = True"

fun orderly_run :: "server \<Rightarrow> event list \<Rightarrow> bool" where
  "orderly_run s [] = True"
| "orderly_run s (e # es) = (orderly s e \<and> orderly_run (step s e) es)"

section \<open>Properties of the transfer receiver\<close>

subsection \<open>One chunk message\<close>

lemma downloads_append: "downloads (xs @ ys) = downloads xs @ downloads ys"
  by (induction xs rule: downloads.induct) auto

lemma handleFileChunk_absent:
  "activeTransfers a = Some m \<Longrightarrow> m (fc_transferId d) = None \<Longrightarrow> handleFileChunk a d = Inr a"
  by (simp add: handleFileChunk_def)

lemma handleFileChunk_continue:
  assumes "activeTransfers a = Some m" "m (fc_transferId d) = Some t"
    and "\<not> fc_isLast d" "receivedChunks t + 1 \<noteq> totalChunks t"
  shows "handleFileChunk a d =
    Inr (a\<lparr>activeTransfers := Some (m(fc_transferId d \<mapsto> store_chunk t d)),
           effects := effects a @ [UpdateProgress (fc_transferId d) (receivedChunks t + 1) (totalChunks t)]\<rparr>)"
  using assms by (simp add: handleFileChunk_def Let_def log_def store_chunk_def)

lemma handleFileChunk_complete:
  assumes "activeTransfers a = Some m" "m (fc_transferId d) = Some t"
    and "fc_isLast d \<or> receivedChunks t + 1 = totalChunks t"
  shows "handleFileChunk a d =
    Inr (a\<lparr>activeTransfers := Some (m(fc_transferId d := None)),
           effects := effects a @ [UpdateProgress (fc_transferId d) (receivedChunks t + 1) (totalChunks t),
              Download (fileName t) (join (chunks (store_chunk t d))), HideProgress (fc_transferId d),
              Notification (Received_ok (fileName t))]\<rparr>)"
  using assms by (auto simp add: handleFileChunk_def Let_def log_def store_chunk_def completeFileTransfer_def)

lemma handleLocalFileChunk_continue:
  assumes "activeTransfers a = Some m" "m (fc_transferId d) = Some t"
    and "receivedChunks t + 1 \<noteq> totalChunks t"
  shows "handleLocalFileChunk a d =
    Inr (a\<lparr>activeTransfers := Some (m(fc_transferId d \<mapsto> store_chunk t d)),
           effects := effects a @ [UpdateProgress (fc_transferId d) (receivedChunks t + 1) (totalChunks t)]\<rparr>)"
  using assms by (simp add: handleLocalFileChunk_def Let_def log_def store_chunk_def)

lemma handleLocalFileChunk_complete:
  assumes "activeTransfers a = Some m" "m (fc_transferId d) = Some t"
    and "receivedChunks t + 1 = totalChunks t"
  shows "handleLocalFileChunk a d =
    Inr (a\<lparr>activeTransfers := Some (m(fc_transferId d := None)),
           effects := effects a @ [UpdateProgress (fc_transferId d) (receivedChunks t + 1) (totalChunks t),
              Download (fileName t) (join (chunks (store_chunk t d))), HideProgress (fc_transferId d),
              Notification (Downloaded_ok (fileName t))]\<rparr>)"
  using assms by (auto simp add: handleLocalFileChunk_def Let_def log_def store_chunk_def completeLocalFileTransfer_def)

subsection \<open>Runs of chunk messages\<close>

lemma receive_absent:
  "activeTransfers a = Some m \<Longrightarrow> m tid = None \<Longrightarrow> \<forall>d \<in> set ds. fc_transferId d = tid
    \<Longrightarrow> receive_chunks handleFileChunk a ds = Inr a"
  by (induction ds) (simp_all add: handleFileChunk_absent)

lemma store_chunks_fields:
  "receivedChunks (foldl store_chunk t ds) = receivedChunks t + length ds"
  "totalChunks (foldl store_chunk t ds) = totalChunks t"
  "fileName (foldl store_chunk t ds) = fileName t"
  by (induction ds arbitrary: t) (simp_all add: store_chunk_def)

lemma receive_no_trigger:
  assumes "activeTransfers a = Some m" "m tid = Some t"
    and "\<forall>d \<in> set ds. fc_transferId d = tid \<and> \<not> fc_isLast d"
    and "receivedChunks t + length ds < totalChunks t"
  shows "\<exists>a'. receive_chunks handleFileChunk a ds = Inr a'
     \<and> activeTransfers a' = Some (m(tid \<mapsto> foldl store_chunk t ds))
     \<and> downloads (effects a') = downloads (effects a)"
  using assms
proof (induction ds arbitrary: a m t)
  case Nil
  then show ?case by (simp add: map_upd_triv)
next
  case (Cons d ds)
  let ?t = "store_chunk t d"
  let ?a = "a\<lparr>activeTransfers := Some (m(tid \<mapsto> ?t)),
           effects := effects a @ [UpdateProgress tid (receivedChunks t + 1) (totalChunks t)]\<rparr>"
  from Cons.prems have step: "handleFileChunk a d = Inr ?a"
    using handleFileChunk_continue [of a m d t] by simp
  have "\<exists>a'. receive_chunks handleFileChunk ?a ds = Inr a'
     \<and> activeTransfers a' = Some ((m(tid \<mapsto> ?t))(tid \<mapsto> foldl store_chunk ?t ds))
     \<and> downloads (effects a') = downloads (effects ?a)"
  proof (rule Cons.IH)
    show "activeTransfers ?a = Some (m(tid \<mapsto> ?t))" by simp
    show "(m(tid \<mapsto> ?t)) tid = Some ?t" by simp
    show "\<forall>d\<in>set ds. fc_transferId d = tid \<and> \<not> fc_isLast d" using Cons.prems by simp
    show "receivedChunks ?t + length ds < totalChunks ?t"
      using Cons.prems by (simp add: store_chunk_def)
  qed
  then obtain a' where a': "receive_chunks handleFileChunk ?a ds = Inr a'"
     "activeTransfers a' = Some ((m(tid \<mapsto> ?t))(tid \<mapsto> foldl store_chunk ?t ds))"
     "downloads (effects a') = downloads (effects ?a)" by blast
  have "receive_chunks handleFileChunk a (d # ds) = Inr a'"
    using step a'(1) by simp
  moreover have "activeTransfers a' = Some (m(tid \<mapsto> foldl store_chunk t (d # ds)))"
    using a'(2) by simp
  moreover have "downloads (effects a') = downloads (effects a)"
    using a'(3) by (simp add: downloads_append)
  ultimately show ?case by blast
qed

lemma receive_chunks_append:
  "receive_chunks h a (xs @ ys) =
     (case receive_chunks h a xs of Inl e \<Rightarrow> Inl e | Inr a' \<Rightarrow> receive_chunks h a' ys)"
  by (induction xs arbitrary: a) (auto split: sum.splits)

lemma stored_chunks:
  assumes "\<forall>i \<in> set p. i < length (chunks t)"
  shows "length (chunks (foldl store_chunk t (map (chunk_message tid cs fl) p))) = length (chunks t)
    \<and> (\<forall>j < length (chunks t).
          chunks (foldl store_chunk t (map (chunk_message tid cs fl) p)) ! j =
            (if j \<in> set p then Some (cs ! j) else chunks t ! j))"
  using assms
proof (induction p rule: rev_induct)
  case Nil
  then show ?case by simp
next
  case (snoc i p)
  then show ?case
    by (auto simp: store_chunk_def array_set_def chunk_message_def nth_list_update)
qed

lemma join_Some: "join (map Some cs) = concat cs"
  by (induction cs) (simp_all add: join_def)

lemma all_slots_filled:
  assumes "set p = {0..<length cs}" "chunks t = replicate (length cs) None"
  shows "chunks (foldl store_chunk t (map (chunk_message tid cs fl) p)) = map Some cs"
proof -
  have b: "\<forall>i \<in> set p. i < length (chunks t)" using assms by simp
  show ?thesis
    using stored_chunks [OF b, of tid cs fl] assms
    by (intro nth_equalityI) simp_all
qed

lemma receive_local_below_total:
  assumes "activeTransfers a = Some m" "m tid = Some t"
    and "\<forall>d \<in> set ds. fc_transferId d = tid"
    and "receivedChunks t + length ds < totalChunks t"
  shows "\<exists>a'. receive_chunks handleLocalFileChunk a ds = Inr a'
     \<and> activeTransfers a' = Some (m(tid \<mapsto> foldl store_chunk t ds))
     \<and> downloads (effects a') = downloads (effects a)"
  using assms
proof (induction ds arbitrary: a m t)
  case Nil
  then show ?case by (simp add: map_upd_triv)
next
  case (Cons d ds)
  let ?t = "store_chunk t d"
  let ?a = "a\<lparr>activeTransfers := Some (m(tid \<mapsto> ?t)),
           effects := effects a @ [UpdateProgress tid (receivedChunks t + 1) (totalChunks t)]\<rparr>"
  from Cons.prems have step: "handleLocalFileChunk a d = Inr ?a"
    using handleLocalFileChunk_continue [of a m d t] by simp
  have "\<exists>a'. receive_chunks handleLocalFileChunk ?a ds = Inr a'
     \<and> activeTransfers a' = Some ((m(tid \<mapsto> ?t))(tid \<mapsto> foldl store_chunk ?t ds))
     \<and> downloads (effects a') = downloads (effects ?a)"
  proof (rule Cons.IH)
    show "activeTransfers ?a = Some (m(tid \<mapsto> ?t))" by simp
    show "(m(tid \<mapsto> ?t)) tid = Some ?t" by simp
    show "\<forall>d\<in>set ds. fc_transferId d = tid" using Cons.prems by simp
    show "receivedChunks ?t + length ds < totalChunks ?t"
      using Cons.prems by (simp add: store_chunk_def)
  qed
  then obtain a' where a': "receive_chunks handleLocalFileChunk ?a ds = Inr a'"
     "activeTransfers a' = Some ((m(tid \<mapsto> ?t))(tid \<mapsto> foldl store_chunk ?t ds))"
     "downloads (effects a') = downloads (effects ?a)" by blast
  have "receive_chunks handleLocalFileChunk a (d # ds) = Inr a'"
    using step a'(1) by simp
  moreover have "activeTransfers a' = Some (m(tid \<mapsto> foldl store_chunk t (d # ds)))"
    using a'(2) by simp
  moreover have "downloads (effects a') = downloads (effects a)"
    using a'(3) by (simp add: downloads_append)
  ultimately show ?case by blast
qed

lemma handleTransferStart_ok:
  assumes "ts_totalChunks d < 2 ^ 32"
  shows "\<exists>m a1. handleTransferStart a d = Inr a1
    \<and> activeTransfers a1 = Some (m(ts_transferId d \<mapsto>
          \<lparr>fileName = ts_fileName d, fileSize = ts_fileSize d, totalChunks = ts_totalChunks d,
           chunks = replicate (ts_totalChunks d) None, receivedChunks = 0, from_client = None\<rparr>))
    \<and> downloads (effects a1) = downloads (effects a)"
  using assms
  by (auto simp: handleTransferStart_def new_Array_def Let_def log_def downloads_append)

lemma handleLocalTransferStart_ok:
  assumes "ts_totalChunks d < 2 ^ 32"
  shows "\<exists>m a1. handleLocalTransferStart a d = Inr a1
    \<and> activeTransfers a1 = Some (m(ts_transferId d \<mapsto>
          \<lparr>fileName = ts_fileName d, fileSize = ts_fileSize d, totalChunks = ts_totalChunks d,
           chunks = replicate (ts_totalChunks d) None, receivedChunks = 0,
           from_client = Some (ts_from d)\<rparr>))
    \<and> downloads (effects a1) = downloads (effects a)"
  using assms
  by (auto simp: handleLocalTransferStart_def new_Array_def Let_def log_def downloads_append)

lemma replicate_numeral: "replicate (numeral k) x = x # replicate (pred_numeral k) x"
  by (simp add: numeral_eq_Suc)

lemma list_update_numeral: "(x # xs)[numeral k := y] = x # xs[pred_numeral k := y]"
  by (simp add: numeral_eq_Suc)

lemmas app_defs = delivered_def session_def receive_transfer_def handleTransferStart_def
  handleFileChunk_def completeFileTransfer_def handleLocalTransferStart_def
  handleLocalFileChunk_def completeLocalFileTransfer_def fresh_app_def new_Array_def log_def
  store_chunk_def array_set_def join_def chunk_message_def Let_def
  replicate_numeral list_update_numeral

subsection \<open>Reordering\<close>

text \<open>
  The run behind the reordering theorem: the first \<open>N - 1\<close> messages to arrive fill their
  slots without completing, the last one fills the remaining slot and completes.
\<close>

lemma reordering_run:
  assumes len: "length cs = N" and pos: "0 < N" and bound: "N < 2 ^ 32"
    and perm: "mset p = mset [0..<N]"
    and flags: "\<forall>i \<in> set (butlast p). \<not> fl i"
  shows "\<exists>a1 a2 m. handleTransferStart a
            \<lparr>ts_transferId = tid, ts_fileName = fn, ts_fileSize = sz, ts_totalChunks = N,
             ts_from = fr\<rparr> = Inr a1
       \<and> receive_chunks handleFileChunk a1 (map (chunk_message tid cs fl) p) = Inr a2
       \<and> downloads (effects a2) = downloads (effects a) @ [(fn, concat cs)]
       \<and> activeTransfers a2 = Some m \<and> m tid = None"
proof -
  let ?d = "\<lparr>ts_transferId = tid, ts_fileName = fn, ts_fileSize = sz, ts_totalChunks = N,
             ts_from = fr\<rparr>"
  let ?t0 = "\<lparr>fileName = fn, fileSize = sz, totalChunks = N,
           chunks = replicate N None, receivedChunks = 0, from_client = None\<rparr>"
  let ?mk = "chunk_message tid cs fl"
  from handleTransferStart_ok [of ?d a] bound
  obtain m0 a1 where a1: "handleTransferStart a ?d = Inr a1"
      "activeTransfers a1 = Some (m0(tid \<mapsto> ?t0))"
      "downloads (effects a1) = downloads (effects a)"
    by auto
  have setp: "set p = {0..<N}" using perm by (metis mset_eq_setD set_upt)
  have lenp: "length p = N" using perm by (metis mset_eq_length length_upt diff_zero)
  have pne: "p \<noteq> []" using lenp pos by auto
  let ?q = "butlast p" and ?l = "last p"
  have psplit: "p = ?q @ [?l]" using pne by simp
  have lenq: "length ?q = N - 1" using lenp by simp
  have "\<exists>a'. receive_chunks handleFileChunk a1 (map ?mk ?q) = Inr a'
     \<and> activeTransfers a' = Some ((m0(tid \<mapsto> ?t0))(tid \<mapsto> foldl store_chunk ?t0 (map ?mk ?q)))
     \<and> downloads (effects a') = downloads (effects a1)"
  proof (rule receive_no_trigger)
    show "activeTransfers a1 = Some (m0(tid \<mapsto> ?t0))" by (rule a1)
    show "(m0(tid \<mapsto> ?t0)) tid = Some ?t0" by simp
    show "\<forall>d\<in>set (map ?mk ?q). fc_transferId d = tid \<and> \<not> fc_isLast d"
      using flags by (auto simp: chunk_message_def)
    show "receivedChunks ?t0 + length (map ?mk ?q) < totalChunks ?t0"
      using lenq pos by simp
  qed
  then obtain a' where a': "receive_chunks handleFileChunk a1 (map ?mk ?q) = Inr a'"
      "activeTransfers a' = Some ((m0(tid \<mapsto> ?t0))(tid \<mapsto> foldl store_chunk ?t0 (map ?mk ?q)))"
      "downloads (effects a') = downloads (effects a1)"
    by blast
  let ?T = "foldl store_chunk ?t0 (map ?mk ?q)"
  let ?m1 = "(m0(tid \<mapsto> ?t0))(tid \<mapsto> ?T)"
  have Tfields: "receivedChunks ?T + 1 = totalChunks ?T" "fileName ?T = fn"
    using lenq pos by (simp_all add: store_chunks_fields)
  have full: "store_chunk ?T (?mk ?l) = foldl store_chunk ?t0 (map ?mk p)"
    by (subst (2) psplit) simp
  have filled: "chunks (foldl store_chunk ?t0 (map ?mk p)) = map Some cs"
    using setp len by (intro all_slots_filled) simp_all
  let ?a2 = "a'\<lparr>activeTransfers := Some (?m1(tid := None)),
           effects := effects a' @ [UpdateProgress tid (receivedChunks ?T + 1) (totalChunks ?T),
              Download (fileName ?T) (join (chunks (store_chunk ?T (?mk ?l)))), HideProgress tid,
              Notification (Received_ok (fileName ?T))]\<rparr>"
  have last_step: "handleFileChunk a' (?mk ?l) = Inr ?a2"
    using handleFileChunk_complete [of a' ?m1 "?mk ?l" ?T] a'(2) Tfields(1)
    by (simp add: chunk_message_def)
  have run: "receive_chunks handleFileChunk a1 (map ?mk p) = Inr ?a2"
    by (subst psplit) (simp add: receive_chunks_append a'(1) last_step)
  have dl: "downloads (effects ?a2) = downloads (effects a) @ [(fn, concat cs)]"
    using a'(3) a1(3) Tfields(2) full filled by (simp add: downloads_append join_Some)
  have gone: "activeTransfers ?a2 = Some (?m1(tid := None))" "(?m1(tid := None)) tid = None"
    by simp_all
  from a1(1) run dl gone show ?thesis by blast
qed

text \<open>
  Reordering on the local-server path: its chunk handler does not read the last-chunk flag,
  so every arrival order of the \<open>N\<close> indices gives the file.
\<close>

lemma local_reordering_invariance:
  assumes len: "length cs = N" and pos: "0 < N" and bound: "N < 2 ^ 32"
    and perm: "mset p = mset [0..<N]"
  shows "delivered (receive_transfer handleLocalTransferStart handleLocalFileChunk a
            \<lparr>ts_transferId = tid, ts_fileName = fn, ts_fileSize = sz, ts_totalChunks = N,
             ts_from = fr\<rparr> (map (chunk_message tid cs fl) p))
          = Some (downloads (effects a) @ [(fn, concat cs)])"
proof -
  let ?d = "\<lparr>ts_transferId = tid, ts_fileName = fn, ts_fileSize = sz, ts_totalChunks = N,
             ts_from = fr\<rparr>"
  let ?t0 = "\<lparr>fileName = fn, fileSize = sz, totalChunks = N,
           chunks = replicate N None, receivedChunks = 0, from_client = Some fr\<rparr>"
  let ?mk = "chunk_message tid cs fl"
  from handleLocalTransferStart_ok [of ?d a] bound
  obtain m0 a1 where a1: "handleLocalTransferStart a ?d = Inr a1"
      "activeTransfers a1 = Some (m0(tid \<mapsto> ?t0))"
      "downloads (effects a1) = downloads (effects a)"
    by auto
  have setp: "set p = {0..<N}" using perm by (metis mset_eq_setD set_upt)
  have lenp: "length p = N" using perm by (metis mset_eq_length length_upt diff_zero)
  have pne: "p \<noteq> []" using lenp pos by auto
  let ?q = "butlast p" and ?l = "last p"
  have psplit: "p = ?q @ [?l]" using pne by simp
  have lenq: "length ?q = N - 1" using lenp by simp
  have "\<exists>a'. receive_chunks handleLocalFileChunk a1 (map ?mk ?q) = Inr a'
     \<and> activeTransfers a' = Some ((m0(tid \<mapsto> ?t0))(tid \<mapsto> foldl store_chunk ?t0 (map ?mk ?q)))
     \<and> downloads (effects a') = downloads (effects a1)"
  proof (rule receive_local_below_total)
    show "activeTransfers a1 = Some (m0(tid \<mapsto> ?t0))" by (rule a1)
    show "(m0(tid \<mapsto> ?t0)) tid = Some ?t0" by simp
    show "\<forall>d\<in>set (map ?mk ?q). fc_transferId d = tid"
      by (auto simp: chunk_message_def)
    show "receivedChunks ?t0 + length (map ?mk ?q) < totalChunks ?t0"
      using lenq pos by simp
  qed
  then obtain a' where a': "receive_chunks handleLocalFileChunk a1 (map ?mk ?q) = Inr a'"
      "activeTransfers a' = Some ((m0(tid \<mapsto> ?t0))(tid \<mapsto> foldl store_chunk ?t0 (map ?mk ?q)))"
      "downloads (effects a') = downloads (effects a1)"
    by blast
  let ?T = "foldl store_chunk ?t0 (map ?mk ?q)"
  let ?m1 = "(m0(tid \<mapsto> ?t0))(tid \<mapsto> ?T)"
  have Tfields: "receivedChunks ?T + 1 = totalChunks ?T" "fileName ?T = fn"
    using lenq pos by (simp_all add: store_chunks_fields)
  have full: "store_chunk ?T (?mk ?l) = foldl store_chunk ?t0 (map ?mk p)"
    by (subst (2) psplit) simp
  have filled: "chunks (foldl store_chunk ?t0 (map ?mk p)) = map Some cs"
    using setp len by (intro all_slots_filled) simp_all
  let ?a2 = "a'\<lparr>activeTransfers := Some (?m1(tid := None)),
           effects := effects a' @ [UpdateProgress tid (receivedChunks ?T + 1) (totalChunks ?T),
              Download (fileName ?T) (join (chunks (store_chunk ?T (?mk ?l)))), HideProgress tid,
              Notification (Downloaded_ok (fileName ?T))]\<rparr>"
  have last_step: "handleLocalFileChunk a' (?mk ?l) = Inr ?a2"
    using handleLocalFileChunk_complete [of a' ?m1 "?mk ?l" ?T] a'(2) Tfields(1)
    by (simp add: chunk_message_def)
  have run: "receive_chunks handleLocalFileChunk a1 (map ?mk p) = Inr ?a2"
    by (subst psplit) (simp add: receive_chunks_append a'(1) last_step)
  have dl: "downloads (effects ?a2) = downloads (effects a) @ [(fn, concat cs)]"
    using a'(3) a1(3) Tfields(2) full filled by (simp add: downloads_append join_Some)
  show ?thesis using a1(1) run dl by (simp add: delivered_def receive_transfer_def)
qed

text \<open>
  Claim C1, as the code has it. A file is cut into the chunks \<open>cs\<close>, \<open>N = length cs\<close> with
  \<open>0 < N < 2^32\<close>; the receiver gets the transfer-start message declaring \<open>N\<close> chunks and
  then the \<open>N\<close> chunk messages, indices in the order \<open>p\<close>, any permutation of \<open>0..N-1\<close>.
  If none of the messages that arrive before the last one carries the last-chunk flag, the
  receiver hands over exactly one new file, whose content is the chunks concatenated in
  index order, and the session is gone. The state before the transfer and the order of
  arrival are arbitrary.
\<close>

theorem reordering_invariance:
  assumes len: "length cs = N" and pos: "0 < N" and bound: "N < 2 ^ 32"
    and perm: "mset p = mset [0..<N]"
    and flags: "\<forall>i \<in> set (butlast p). \<not> fl i"
  shows "delivered (receive_transfer handleTransferStart handleFileChunk a
            \<lparr>ts_transferId = tid, ts_fileName = fn, ts_fileSize = sz, ts_totalChunks = N,
             ts_from = fr\<rparr> (map (chunk_message tid cs fl) p))
          = Some (downloads (effects a) @ [(fn, concat cs)])
      \<and> session (receive_transfer handleTransferStart handleFileChunk a
            \<lparr>ts_transferId = tid, ts_fileName = fn, ts_fileSize = sz, ts_totalChunks = N,
             ts_from = fr\<rparr> (map (chunk_message tid cs fl) p)) tid = None"
  using reordering_run [OF assms, of a tid "fn" sz fr]
  by (auto simp: delivered_def receive_transfer_def session_def)

text \<open>
  The theorem at three chunks arriving in the order 1, 0, 2, flagged as \<open>sendFile\<close> flags
  them: the file is \<open>abc\<close>.
\<close>

theorem reordering_invariance_witness:
  "length [''a'', ''b'', ''c''] = 3 \<and> (0::nat) < 3 \<and> (3::nat) < 2 ^ 32
    \<and> mset [1, 0, 2] = mset [0..<3::nat]
    \<and> butlast [1, 0, 2::nat] = [1, 0] \<and> \<not> sendFile_flag 3 1 \<and> \<not> sendFile_flag 3 0
    \<and> delivered (receive_transfer handleTransferStart handleFileChunk fresh_app
            \<lparr>ts_transferId = ''t1'', ts_fileName = ''f'', ts_fileSize = 3, ts_totalChunks = 3,
             ts_from = ''A''\<rparr>
            (map (chunk_message ''t1'' [''a'', ''b'', ''c''] (sendFile_flag 3)) [1, 0, 2]))
          = Some [(''f'', ''abc'')]"
proof -
  have h1: "length [''a'', ''b'', ''c''] = 3" by simp
  have h2: "(0::nat) < 3" by simp
  have h3: "(3::nat) < 2 ^ 32" by simp
  have h4: "mset [1, 0, 2] = mset [0..<3::nat]" by (simp add: upt_rec)
  have h5: "\<forall>i \<in> set (butlast [1, 0, 2::nat]). \<not> sendFile_flag 3 i"
    by (simp add: sendFile_flag_def)
  have h6: "\<not> sendFile_flag 3 1 \<and> \<not> sendFile_flag 3 0"
    by (simp add: sendFile_flag_def)
  show ?thesis
    using h1 h2 h3 h4 h6
      reordering_invariance [OF h1 h2 h3 h4 h5, of fresh_app "''t1''" "''f''" 3 "''A''"]
    by (simp add: fresh_app_def)
qed

text \<open>
  Claim C1 as it is stated fails: two chunks \<open>a\<close> and \<open>b\<close>, flagged as \<open>sendFile\<close> flags
  them, arriving in the order 1, 0. The message for index 1 carries the last-chunk flag,
  so \<open>handleFileChunk\<close> completes on it with slot 0 empty: the file handed over is \<open>b\<close>,
  not \<open>ab\<close>, and the message for index 0 finds no session.
\<close>

theorem reordering_counterexample:
  "mset [1, 0] = mset [0..<2::nat]
   \<and> delivered (receive_transfer handleTransferStart handleFileChunk fresh_app two_chunk_start
        (map (chunk_message ''t1'' [''a'', ''b''] (sendFile_flag 2)) [1, 0]))
      = Some [(''f'', ''b'')]
   \<and> concat [''a'', ''b''] = ''ab''
   \<and> ''b'' \<noteq> ''ab''"
  by (simp add: app_defs sendFile_flag_def two_chunk_start_def upt_rec)

subsection \<open>Completion\<close>

text \<open>
  Claim C2. A chunk message arrives for a session that exists, and it satisfies a
  completion condition: it carries the last-chunk flag, or it brings the received-count to
  the declared total. Then the handler runs the completion effects once (one download,
  one notification, the progress display hidden) and removes the session; and whatever
  chunk messages for the same transfer id arrive later, flagged or not, the receiver's
  state, log of effects included, stays exactly as completion left it.
\<close>

theorem completion_runs_once:
  assumes "activeTransfers a = Some m" and "m (fc_transferId d) = Some t"
    and "fc_isLast d \<or> receivedChunks t + 1 = totalChunks t"
    and "\<forall>d' \<in> set later. fc_transferId d' = fc_transferId d"
  shows "\<exists>a'. handleFileChunk a d = Inr a'
    \<and> effects a' = effects a @
         [UpdateProgress (fc_transferId d) (receivedChunks t + 1) (totalChunks t),
          Download (fileName t) (join (chunks (store_chunk t d))),
          HideProgress (fc_transferId d), Notification (Received_ok (fileName t))]
    \<and> activeTransfers a' = Some (m(fc_transferId d := None))
    \<and> receive_chunks handleFileChunk a' later = Inr a'"
proof -
  let ?a' = "a\<lparr>activeTransfers := Some (m(fc_transferId d := None)),
           effects := effects a @
             [UpdateProgress (fc_transferId d) (receivedChunks t + 1) (totalChunks t),
              Download (fileName t) (join (chunks (store_chunk t d))),
              HideProgress (fc_transferId d), Notification (Received_ok (fileName t))]\<rparr>"
  have step: "handleFileChunk a d = Inr ?a'"
    using assms(1-3) by (rule handleFileChunk_complete)
  have "receive_chunks handleFileChunk ?a' later = Inr ?a'"
    using assms(4)
    by (intro receive_absent [of ?a' "m(fc_transferId d := None)" "fc_transferId d" later])
      simp_all
  with step show ?thesis by simp
qed

text \<open>
  The theorem at a two-chunk session holding chunk 0: the chunk for index 1 arrives with
  the flag, so both conditions hold at once, and is followed by a flagged duplicate and an
  unflagged chunk. The whole run leaves one download.
\<close>

theorem completion_runs_once_witness:
  "activeTransfers half_received = Some [''t1'' \<mapsto> half_session]
   \<and> [''t1'' \<mapsto> half_session] (fc_transferId (chunk1 ''b'' True)) = Some half_session
   \<and> (fc_isLast (chunk1 ''b'' True) \<or> receivedChunks half_session + 1 = totalChunks half_session)
   \<and> fc_transferId (chunk1 ''b'' True) = ''t1'' \<and> fc_transferId (chunk0 ''c'') = ''t1''
   \<and> delivered (receive_chunks handleFileChunk half_received
        [chunk1 ''b'' True, chunk1 ''b'' True, chunk0 ''c'']) = Some [(''f'', ''ab'')]"
proof -
  have h1: "activeTransfers half_received = Some [''t1'' \<mapsto> half_session]"
    by (simp add: half_received_def)
  have h2: "[''t1'' \<mapsto> half_session] (fc_transferId (chunk1 ''b'' True)) = Some half_session"
    by (simp add: chunk1_def)
  have h3: "fc_isLast (chunk1 ''b'' True)
      \<or> receivedChunks half_session + 1 = totalChunks half_session"
    by (simp add: chunk1_def)
  have h4: "\<forall>d' \<in> set [chunk1 ''b'' True, chunk0 ''c''].
      fc_transferId d' = fc_transferId (chunk1 ''b'' True)"
    by (simp add: chunk1_def chunk0_def)
  from completion_runs_once [OF h1 h2 h3 h4]
  obtain a' where a': "handleFileChunk half_received (chunk1 ''b'' True) = Inr a'"
      "effects a' = effects half_received @
         [UpdateProgress (fc_transferId (chunk1 ''b'' True)) (receivedChunks half_session + 1)
            (totalChunks half_session),
          Download (fileName half_session) (join (chunks (store_chunk half_session (chunk1 ''b'' True)))),
          HideProgress (fc_transferId (chunk1 ''b'' True)),
          Notification (Received_ok (fileName half_session))]"
      "receive_chunks handleFileChunk a' [chunk1 ''b'' True, chunk0 ''c''] = Inr a'"
    by blast
  have "delivered (receive_chunks handleFileChunk half_received
        [chunk1 ''b'' True, chunk1 ''b'' True, chunk0 ''c'']) = Some (downloads (effects a'))"
    using a'(1,3) by (simp add: delivered_def)
  also have "downloads (effects a') = [(''f'', ''ab'')]"
    unfolding a'(2)
    by (simp add: half_received_def fresh_app_def half_session_def chunk1_def store_chunk_def
        array_set_def join_def)
  finally show ?thesis using h1 h2 h3 by (simp add: chunk1_def chunk0_def)
qed

subsection \<open>Repeated indices\<close>

text \<open>
  Claim C10. A chunk message for a session that exists adds one to the received-count
  whatever its index, so also when the slot of that index is already filled: the session
  kept by either chunk handler is \<open>store_chunk\<close> of the old one, and when the handler
  completes, the file is the join of those slots. The run that shows the consequence: a
  transfer of two chunks receives index 0 twice, content \<open>a\<close> then \<open>b\<close>. After the first
  message the slots are \<open>a\<close> and empty; the second brings the count to the total 2 with
  slot 1 still empty, the handler completes, and the file is \<open>b\<close> followed by the empty
  string. Both chunk handlers behave so.
\<close>

theorem repeated_index_counted:
  assumes "activeTransfers a = Some m" and "m (fc_transferId d) = Some t"
  shows "receivedChunks (store_chunk t d) = receivedChunks t + 1
    \<and> (if fc_isLast d \<or> receivedChunks t + 1 = totalChunks t
        then delivered (handleFileChunk a d) =
               Some (downloads (effects a) @ [(fileName t, join (chunks (store_chunk t d)))])
        else session (handleFileChunk a d) (fc_transferId d) = Some (store_chunk t d))
    \<and> (if receivedChunks t + 1 = totalChunks t
        then delivered (handleLocalFileChunk a d) =
               Some (downloads (effects a) @ [(fileName t, join (chunks (store_chunk t d)))])
        else session (handleLocalFileChunk a d) (fc_transferId d) = Some (store_chunk t d))
    \<and> repeated_index_run handleTransferStart handleFileChunk
    \<and> repeated_index_run handleLocalTransferStart handleLocalFileChunk"
proof -
  have 1: "receivedChunks (store_chunk t d) = receivedChunks t + 1"
    by (simp add: store_chunk_def)
  have 2: "if fc_isLast d \<or> receivedChunks t + 1 = totalChunks t
        then delivered (handleFileChunk a d) =
               Some (downloads (effects a) @ [(fileName t, join (chunks (store_chunk t d)))])
        else session (handleFileChunk a d) (fc_transferId d) = Some (store_chunk t d)"
    using assms handleFileChunk_complete [of a m d t] handleFileChunk_continue [of a m d t]
    by (auto simp: delivered_def session_def downloads_append)
  have 3: "if receivedChunks t + 1 = totalChunks t
        then delivered (handleLocalFileChunk a d) =
               Some (downloads (effects a) @ [(fileName t, join (chunks (store_chunk t d)))])
        else session (handleLocalFileChunk a d) (fc_transferId d) = Some (store_chunk t d)"
    using assms handleLocalFileChunk_complete [of a m d t]
      handleLocalFileChunk_continue [of a m d t]
    by (auto simp: delivered_def session_def downloads_append)
  have 4: "repeated_index_run handleTransferStart handleFileChunk"
    by (simp add: repeated_index_run_def app_defs two_chunk_start_def chunk0_def)
  have 5: "repeated_index_run handleLocalTransferStart handleLocalFileChunk"
    by (simp add: repeated_index_run_def app_defs two_chunk_start_def chunk0_def)
  from 1 2 3 4 5 show ?thesis by blast
qed

text \<open>
  The theorem at the session that holds chunk 0 of two, receiving index 0 again: the
  count becomes 2, the handler completes and the file is \<open>b\<close>.
\<close>

theorem repeated_index_counted_witness:
  "activeTransfers half_received = Some [''t1'' \<mapsto> half_session]
   \<and> [''t1'' \<mapsto> half_session] (fc_transferId (chunk0 ''b'')) = Some half_session
   \<and> receivedChunks (store_chunk half_session (chunk0 ''b'')) = 2
   \<and> delivered (handleFileChunk half_received (chunk0 ''b'')) = Some [(''f'', ''b'')]
   \<and> delivered (handleLocalFileChunk half_received (chunk0 ''b'')) = Some [(''f'', ''b'')]"
proof -
  have h1: "activeTransfers half_received = Some [''t1'' \<mapsto> half_session]"
    by (simp add: half_received_def)
  have h2: "[''t1'' \<mapsto> half_session] (fc_transferId (chunk0 ''b'')) = Some half_session"
    by (simp add: chunk0_def)
  have j: "join (chunks (store_chunk half_session (chunk0 ''b''))) = ''b''"
    by (simp add: half_session_def chunk0_def store_chunk_def array_set_def join_def)
  show ?thesis
    using h1 h2 j repeated_index_counted [OF h1 h2]
    by (simp add: half_session_def half_received_def fresh_app_def store_chunk_def)
qed

section \<open>Properties of the server\<close>

subsection \<open>Sending\<close>

text \<open>
  A broadcast appends one message for each recipient, in the order of the member set, and
  changes nothing else.
\<close>

lemma ws_send_fields [simp]:
  "clients (ws_send s w m) = clients s" "rooms (ws_send s w m) = rooms s"
  "readyState (ws_send s w m) = readyState s" "sent (ws_send s w m) = sent s @ [(w, stringify m)]"
  "uncaught (ws_send s w m) = uncaught s"
  by (simp_all add: ws_send_def)

lemma broadcast_fold:
  "foldl (\<lambda>s' ident.
             if Some ident = ex then s'
             else (case map_of (clients s') ident of
                     None \<Rightarrow> s'
                   | Some client \<Rightarrow>
                       if readyState s' ident = OPEN then ws_send s' ident message else s'))
     s cs
   = s\<lparr>sent := sent s @ map (\<lambda>c. (c, stringify message)) (recipients s ex cs)\<rparr>"
proof (induction cs arbitrary: s)
  case Nil
  then show ?case by (simp add: recipients_def)
next
  case (Cons c cs)
  show ?case
    by (simp add: Cons.IH) (auto simp: recipients_def ws_send_def split: option.splits)
qed

lemma broadcastToRoom_sent:
  "broadcastToRoom s roomId message ex =
     (case map_of (rooms s) roomId of
        None \<Rightarrow> s
      | Some room \<Rightarrow>
          s\<lparr>sent := sent s @ map (\<lambda>c. (c, stringify message)) (recipients s ex (r_clients room))\<rparr>)"
  by (simp add: broadcastToRoom_def broadcast_fold split: option.splits)

lemma broadcastToRoom_fields [simp]:
  "clients (broadcastToRoom s r m ex) = clients s" "rooms (broadcastToRoom s r m ex) = rooms s"
  "readyState (broadcastToRoom s r m ex) = readyState s"
  "uncaught (broadcastToRoom s r m ex) = uncaught s"
  by (simp_all add: broadcastToRoom_sent split: option.splits)

lemma recipients_cong:
  assumes "\<And>x. (map_of (clients s') x \<noteq> None) = (map_of (clients s) x \<noteq> None)"
    and "readyState s' = readyState s"
  shows "recipients s' ex cs = recipients s ex cs"
  using assms by (simp add: recipients_def)

lemma recipients_after_join:
  assumes "map_of (clients s) c = Some client" and "readyState s1 = readyState s"
  shows "recipients (s1\<lparr>rooms := R, clients := AList.update c v (clients s)\<rparr>) ex cs =
     recipients s ex cs"
  using assms by (intro recipients_cong) (auto simp: update_conv')

subsection \<open>Objects\<close>

lemma map_of_rev_distinct:
  "distinct (map fst xs) \<Longrightarrow> map_of (rev xs) k = map_of xs k"
proof (induction xs)
  case Nil
  then show ?case by simp
next
  case (Cons x xs)
  obtain k' v' where x: "x = (k', v')" by (cases x)
  have "map_of xs k' = None" using Cons.prems x by (simp add: map_of_eq_None_iff)
  with Cons x show ?case
    by (auto simp: map_of_append map_add_def split: option.splits)
qed

lemma spread_fold_map_of:
  "map_of (foldl (\<lambda>acc kv. AList.update (fst kv) (snd kv) acc) obj kvs) k =
     (case map_of (rev kvs) k of None \<Rightarrow> map_of obj k | Some v \<Rightarrow> Some v)"
proof (induction kvs arbitrary: obj)
  case Nil
  then show ?case by simp
next
  case (Cons kv kvs)
  show ?case
    by (cases kv) (auto simp: Cons.IH update_conv' map_add_def split: option.splits)
qed

lemma spread_fold_distinct:
  "distinct (map fst obj) \<Longrightarrow>
     distinct (map fst (foldl (\<lambda>acc kv. AList.update (fst kv) (snd kv) acc) obj kvs))"
  by (induction kvs arbitrary: obj) (simp_all add: distinct_update)

lemma spread_map_of:
  assumes "distinct (map fst kvs)"
  shows "map_of (spread obj (JObj kvs)) k =
     (case map_of kvs k of None \<Rightarrow> map_of obj k | Some v \<Rightarrow> Some v)"
  using assms by (simp add: spread_def own_props_def spread_fold_map_of map_of_rev_distinct)

lemma spread_distinct: "distinct (map fst obj) \<Longrightarrow> distinct (map fst (spread obj src))"
  by (simp add: spread_def spread_fold_distinct)

lemma map_of_filter_value:
  assumes "distinct (map fst kvs)"
  shows "map_of (filter (\<lambda>kv. P (snd kv)) kvs) k =
     (case map_of kvs k of None \<Rightarrow> None | Some v \<Rightarrow> if P v then Some v else None)"
  using assms
proof (induction kvs)
  case Nil
  then show ?case by simp
next
  case (Cons kv kvs)
  obtain k' v' where kv: "kv = (k', v')" by (cases kv)
  have "map_of kvs k' = None" using Cons.prems kv by (simp add: map_of_eq_None_iff)
  with Cons kv show ?case by (auto split: option.splits)
qed

lemma property_stringify:
  assumes "distinct (map fst kvs)"
  shows "property (stringify kvs) k = (case map_of kvs k of None \<Rightarrow> JUndefined | Some v \<Rightarrow> v)"
  using map_of_filter_value [OF assms, of "\<lambda>v. v \<noteq> JUndefined" k]
  by (auto simp: property_def stringify_def split: option.splits)




text \<open>
  The \<open>from\<close> of a relayed signal: the sender's id when the payload has no \<open>from\<close>
  property, and the payload's own \<open>from\<close> otherwise, since the payload is spread over the
  object after \<open>from\<close> is set.
\<close>

lemma signal_relay_from:
  assumes "distinct (map fst kvs)"
  shows "property (signal_relay c (JObj kvs)) ''from'' =
     (case map_of kvs ''from'' of None \<Rightarrow> JStr c | Some v \<Rightarrow> v)"
  using assms
  by (simp add: signal_relay_def property_stringify spread_distinct spread_map_of
      split: option.splits)

lemma signaling_relay:
  assumes "map_of (clients s) c = Some client" and "truthy (c_room client)"
  shows "handleWebRTCSignaling s c data =
     s\<lparr>sent := sent s @ map (\<lambda>r. (r, signal_relay c data))
        (recipients s (Some c) (case members s (c_room client) of None \<Rightarrow> [] | Some ms \<Rightarrow> ms))\<rparr>"
  using assms
  by (auto simp: handleWebRTCSignaling_def broadcastToRoom_sent signal_relay_def members_def
      recipients_def split: option.splits)

lemma property_client_joined:
  "property (stringify (client_joined c ms)) ''roomClients'' = JArr (map JStr ms)"
  "property (stringify (client_joined c ms)) ''clientId'' = JStr c"
  "property (stringify (client_joined c ms)) ''type'' = JStr ''client-joined''"
  by (simp_all add: client_joined_def stringify_def property_def)

lemma property_room_joined:
  "property (stringify (room_joined r c ms)) ''clients'' = JArr (map JStr (filter (\<lambda>i. i \<noteq> c) ms))"
  "property (stringify (room_joined r c ms)) ''type'' = JStr ''room-joined''"
  "property (stringify (room_joined r c ms)) ''roomId'' = r"
  by (simp_all add: room_joined_def stringify_def property_def)

subsection \<open>What a handler returns\<close>

lemma state_of_simps [simp]:
  "state_of (Inr s) = s" "state_of (Inl (e, s)) = s"
  by (simp_all add: state_of_def)

lemma raises_simps [simp]:
  "raises (Inr s) = False" "raises (Inl x) = True"
  by (simp_all add: raises_def)

lemma not_raises: "\<not> raises r \<Longrightarrow> r = Inr (state_of r)"
  by (cases r) simp_all

lemma console_log_state [simp]: "state_of (console_log vs s) = s"
  by (simp add: console_log_def)

lemma console_log_raises [simp]: "raises (console_log vs s) = (\<not> list_all stringifiable vs)"
  by (simp add: console_log_def)

lemma console_log_result:
  "console_log vs s = (if list_all stringifiable vs then Inr s else Inl (TypeError, s))"
  by (simp add: console_log_def)

lemma console_log_ok: "list_all stringifiable vs \<Longrightarrow> console_log vs s = Inr s"
  by (simp add: console_log_def)

lemma primitive_stringifiable: "primitive v \<Longrightarrow> stringifiable v"
  by (cases v) simp_all

subsection \<open>Rooms\<close>

lemma members_sent [simp]: "members (s\<lparr>sent := x\<rparr>) r = members s r"
  by (simp add: members_def)

lemma members_clients [simp]: "members (s\<lparr>clients := x\<rparr>) r = members s r"
  by (simp add: members_def)

lemma members_ws_send [simp]: "members (ws_send s w m) r = members s r"
  by (simp add: members_def)

lemma members_broadcast [simp]: "members (broadcastToRoom s r' m ex) r = members s r"
  by (simp add: members_def)

lemma members_uncaught [simp]: "members (s\<lparr>uncaught := x\<rparr>) r = members s r"
  by (simp add: members_def)

lemma members_readyState [simp]: "members (s\<lparr>readyState := z\<rparr>) r = members s r"
  by (simp add: members_def)

text \<open>
  Leaving a room: the state it gives, raised or not, and when it raises. It raises only
  in the log line that follows the deletion of the room, when the room id cannot be
  written into that line.
\<close>

lemma leaveRoom_fields [simp]:
  "clients (state_of (leaveRoom s c r)) = clients s"
  "readyState (state_of (leaveRoom s c r)) = readyState s"
  "uncaught (state_of (leaveRoom s c r)) = uncaught s"
  by (simp_all add: leaveRoom_def Let_def split: option.splits)

lemma leaveRoom_members:
  "members (state_of (leaveRoom s c r)) r' =
     (if r' = r
      then (case members s r of
              None \<Rightarrow> None
            | Some ms \<Rightarrow> if removeAll c ms = [] then None else Some (removeAll c ms))
      else members s r')"
  by (auto simp: leaveRoom_def Let_def members_def set_delete_def delete_conv' update_conv'
      split: option.splits)

lemma leaveRoom_sent:
  "sent (state_of (leaveRoom s c r)) = sent s @
     (case members s r of
        None \<Rightarrow> []
      | Some ms \<Rightarrow>
          if removeAll c ms = [] then []
          else map (\<lambda>x. (x, stringify (client_left c (removeAll c ms))))
                 (recipients s None (removeAll c ms)))"
proof -
  have rec: "\<And>RS cs. recipients (s\<lparr>rooms := RS\<rparr>) None cs = recipients s None cs"
    by (intro recipients_cong) simp_all
  show ?thesis
    by (auto simp: leaveRoom_def Let_def members_def set_delete_def broadcastToRoom_sent
        update_conv' rec split: option.splits)
qed

lemma leaveRoom_raises:
  "raises (leaveRoom s c r) =
     (\<not> stringifiable r \<and> (\<exists>ms. members s r = Some ms \<and> removeAll c ms = []))"
  by (auto simp: leaveRoom_def Let_def members_def set_delete_def split: option.splits)

lemma leaveRoom_error:
  "leaveRoom s c r = Inl x \<Longrightarrow> x = (TypeError, state_of (leaveRoom s c r))"
  by (auto simp: leaveRoom_def Let_def console_log_def split: option.splits if_splits)

lemma leave_current_fields [simp]:
  "clients (state_of (leave_current s c client)) = clients s"
  "readyState (state_of (leave_current s c client)) = readyState s"
  "uncaught (state_of (leave_current s c client)) = uncaught s"
  by (simp_all add: leave_current_def)

lemma members_leave_current:
  "members (state_of (leave_current s c client)) r =
     (if truthy (c_room client) \<and> r = c_room client
      then (case members s r of
              None \<Rightarrow> None
            | Some ms \<Rightarrow> if removeAll c ms = [] then None else Some (removeAll c ms))
      else members s r)"
  by (simp add: leave_current_def leaveRoom_members)

lemma leave_current_raises:
  "raises (leave_current s c client) =
     (truthy (c_room client) \<and> \<not> stringifiable (c_room client)
      \<and> (\<exists>ms. members s (c_room client) = Some ms \<and> removeAll c ms = []))"
  by (simp add: leave_current_def leaveRoom_raises)

lemma leave_current_error:
  "leave_current s c client = Inl x \<Longrightarrow> x = (TypeError, state_of (leave_current s c client))"
  by (auto simp: leave_current_def dest: leaveRoom_error split: if_splits)

text \<open>
  Joining, from the state \<open>s1\<close> that leaving gave. Whether the log line raises or not, the
  room then holds the joiner and the joiner's reference names the room; notifications are
  sent only when it does not raise.
\<close>

lemma join_after_leave_members:
  "members (state_of (join_after_leave s1 c client roomId now)) r =
     (if r = roomId
      then Some (set_add c (case members s1 roomId of None \<Rightarrow> [] | Some old \<Rightarrow> old))
      else members s1 r)"
proof (cases "map_of (rooms s1) roomId")
  case None
  then show ?thesis
    by (simp add: join_after_leave_def Let_def members_def update_conv' console_log_def)
next
  case (Some room)
  then show ?thesis
    by (simp add: join_after_leave_def Let_def members_def update_conv' console_log_def)
qed

lemma join_after_leave_clients:
  "clients (state_of (join_after_leave s1 c client roomId now)) =
     AList.update c (client\<lparr>c_room := roomId\<rparr>) (clients s1)"
  by (auto simp: join_after_leave_def Let_def console_log_def update_conv' split: option.splits)

lemma join_after_leave_fields [simp]:
  "readyState (state_of (join_after_leave s1 c client roomId now)) = readyState s1"
  "uncaught (state_of (join_after_leave s1 c client roomId now)) = uncaught s1"
  by (auto simp: join_after_leave_def Let_def console_log_def update_conv' split: option.splits)

lemma join_after_leave_raises:
  "raises (join_after_leave s1 c client roomId now) = (\<not> stringifiable roomId)"
  by (auto simp: join_after_leave_def Let_def console_log_def update_conv' split: option.splits)

lemma join_after_leave_error:
  "join_after_leave s1 c client roomId now = Inl x \<Longrightarrow>
     x = (TypeError, state_of (join_after_leave s1 c client roomId now))"
  by (auto simp: join_after_leave_def Let_def console_log_def update_conv'
      split: option.splits if_splits)

lemma join_after_leave_sent:
  assumes "stringifiable roomId" and "map_of (clients s1) c = Some client0"
  shows "sent (state_of (join_after_leave s1 c client roomId now)) =
     sent s1
     @ map (\<lambda>r. (r, stringify (client_joined c
              (set_add c (case members s1 roomId of None \<Rightarrow> [] | Some old \<Rightarrow> old)))))
         (recipients s1 (Some c)
            (set_add c (case members s1 roomId of None \<Rightarrow> [] | Some old \<Rightarrow> old)))
     @ [(c, stringify (room_joined roomId c
              (set_add c (case members s1 roomId of None \<Rightarrow> [] | Some old \<Rightarrow> old))))]"
  using assms
  by (auto simp: join_after_leave_def Let_def members_def update_conv' broadcastToRoom_sent
      console_log_def recipients_after_join [OF assms(2)] split: option.splits)

subsection \<open>Handlers and listeners\<close>

text \<open>
  \<open>handleJoinRoom\<close> stops at the first log line that raises. The close listener leaves
  what \<open>handleClientDisconnect\<close> raises uncaught; the message listener answers it with the
  error reply.
\<close>

lemma handleJoinRoom_state:
  assumes "map_of (clients s) c = Some client"
  shows "state_of (handleJoinRoom s c roomId now) =
     (if raises (leave_current s c client) then state_of (leave_current s c client)
      else state_of (join_after_leave (state_of (leave_current s c client)) c client roomId now))"
    and "raises (handleJoinRoom s c roomId now) =
     (raises (leave_current s c client) \<or> \<not> stringifiable roomId)"
  using assms
  by (cases "leave_current s c client"; auto simp: handleJoinRoom_def join_after_leave_raises)+

lemma handleJoinRoom_unregistered:
  "map_of (clients s) c = None \<Longrightarrow> handleJoinRoom s c roomId now = Inr s"
  by (simp add: handleJoinRoom_def)

lemma handleJoinRoom_error:
  "handleJoinRoom s c roomId now = Inl x \<Longrightarrow>
     x = (TypeError, state_of (handleJoinRoom s c roomId now))"
  by (auto simp: handleJoinRoom_def dest: leave_current_error join_after_leave_error
      split: option.splits sum.splits)

lemma handleClientDisconnect_state:
  "state_of (handleClientDisconnect s c) =
     (case map_of (clients s) c of
        None \<Rightarrow> s\<lparr>clients := AList.delete c (clients s)\<rparr>
      | Some client \<Rightarrow>
          if raises (leave_current s c client) then state_of (leave_current s c client)
          else (state_of (leave_current s c client))\<lparr>clients := AList.delete c (clients s)\<rparr>)"
  "raises (handleClientDisconnect s c) =
     (case map_of (clients s) c of
        None \<Rightarrow> False
      | Some client \<Rightarrow> raises (leave_current s c client))"
proof -
  show "state_of (handleClientDisconnect s c) =
     (case map_of (clients s) c of
        None \<Rightarrow> s\<lparr>clients := AList.delete c (clients s)\<rparr>
      | Some client \<Rightarrow>
          if raises (leave_current s c client) then state_of (leave_current s c client)
          else (state_of (leave_current s c client))\<lparr>clients := AList.delete c (clients s)\<rparr>)"
  proof (cases "map_of (clients s) c")
    case None
    then show ?thesis by (simp add: handleClientDisconnect_def)
  next
    case (Some client)
    have l: "(if truthy (c_room client) then leaveRoom s c (c_room client) else Inr s)
        = leave_current s c client"
      by (simp add: leave_current_def)
    show ?thesis
      using Some leave_current_fields(1) [of s c client]
      by (cases "leave_current s c client") (auto simp: handleClientDisconnect_def l)
  qed
  show "raises (handleClientDisconnect s c) =
     (case map_of (clients s) c of
        None \<Rightarrow> False
      | Some client \<Rightarrow> raises (leave_current s c client))"
  proof (cases "map_of (clients s) c")
    case None
    then show ?thesis by (simp add: handleClientDisconnect_def)
  next
    case (Some client)
    have l: "(if truthy (c_room client) then leaveRoom s c (c_room client) else Inr s)
        = leave_current s c client"
      by (simp add: leave_current_def)
    show ?thesis
      using Some by (cases "leave_current s c client") (auto simp: handleClientDisconnect_def l)
  qed
qed

lemma on_close_state:
  "on_close s c =
     (if raises (handleClientDisconnect s c)
      then (state_of (handleClientDisconnect s c))\<lparr>uncaught := Some TypeError\<rparr>
      else state_of (handleClientDisconnect s c))"
proof (cases "handleClientDisconnect s c")
  case (Inl x)
  obtain e s' where x: "x = (e, s')" by (cases x)
  have "e = TypeError"
    using Inl x leave_current_error leaveRoom_error
    by (auto simp: handleClientDisconnect_def split: option.splits sum.splits if_splits)
  then show ?thesis using Inl x by (simp add: on_close_def)
next
  case (Inr s')
  then show ?thesis by (simp add: on_close_def)
qed

lemma on_message_state:
  "on_message s c (Some data) roomId now =
     (if raises (handleMessage s c data roomId now)
      then ws_send (state_of (handleMessage s c data roomId now)) c error_reply
      else state_of (handleMessage s c data roomId now))"
  by (cases "handleMessage s c data roomId now") (auto simp: on_message_def)

text \<open>The dispatch of \<open>handleMessage\<close>, for a registered client.\<close>

lemma handleMessage_join:
  assumes "map_of (clients s) c = Some client" and "property data ''type'' = JStr ''join-room''"
  shows "handleMessage s c data roomId now = handleJoinRoom s c (property data ''roomId'') now"
  using assms by (auto simp: handleMessage_def Let_def property_def)

lemma handleMessage_create:
  assumes "map_of (clients s) c = Some client" and "property data ''type'' = JStr ''create-room''"
  shows "handleMessage s c data roomId now =
     Inr (handleCreateRoom s c (property data ''roomName'') roomId now)"
  using assms by (auto simp: handleMessage_def Let_def property_def)

lemma handleMessage_signal:
  assumes "map_of (clients s) c = Some client"
    and "property data ''type'' = JStr ''webrtc-offer'' \<or> property data ''type'' = JStr ''webrtc-answer''
       \<or> property data ''type'' = JStr ''webrtc-ice-candidate''"
  shows "handleMessage s c data roomId now = Inr (handleWebRTCSignaling s c data)"
  using assms by (auto simp: handleMessage_def Let_def property_def)


lemma handleMessage_unregistered:
  "map_of (clients s) c = None \<Longrightarrow> handleMessage s c data roomId now = Inr s"
  by (simp add: handleMessage_def)

lemma handleJoinRoom_members:
  assumes "map_of (clients s) c = Some client" and "\<not> raises (leave_current s c client)"
  shows "members (state_of (handleJoinRoom s c roomId now)) r =
     (if r = roomId
      then Some (set_add c (case members (state_of (leave_current s c client)) roomId of
                              None \<Rightarrow> [] | Some old \<Rightarrow> old))
      else members (state_of (leave_current s c client)) r)"
  using assms by (simp add: handleJoinRoom_state join_after_leave_members)

lemma handleCreateRoom_members:
  "members (handleCreateRoom s c roomName roomId now) r =
     (if r = JStr roomId then Some [c] else members s r)"
  by (auto simp: handleCreateRoom_def Let_def members_def update_conv' split: option.splits)

lemma relay_members [simp]:
  "members (handleWebRTCSignaling s c data) r = members s r"
  "members (handleFileTransfer s c data) r = members s r"
  "members (handleDeviceDiscovery s c) r = members s r"
  by (auto simp: handleWebRTCSignaling_def handleFileTransfer_def handleDeviceDiscovery_def
      clients_get_def split: option.splits)

text \<open>
  A join takes the client out of the room its reference names, and a join of a room id
  that is not in the table makes a room with the joiner as only member, no name and no
  creator, dated now.
\<close>

lemma join_leaves_previous_room:
  assumes reg: "map_of (clients s) c = Some client" and t: "truthy (c_room client)"
    and ne: "c_room client \<noteq> roomId"
  shows "case members (state_of (handleJoinRoom s c roomId now)) (c_room client) of
           None \<Rightarrow> True
         | Some ms \<Rightarrow> c \<notin> set ms"
proof -
  have "members (state_of (handleJoinRoom s c roomId now)) (c_room client) =
      members (state_of (leave_current s c client)) (c_room client)"
    using ne by (simp add: handleJoinRoom_state [OF reg] join_after_leave_members)
  then show ?thesis
    using t by (auto simp: members_leave_current split: option.splits)
qed

lemma join_absent_room_fresh:
  assumes "map_of (clients s) c = Some client" and "leave_current s c client = Inr s1"
    and "members s1 roomId = None"
  shows "map_of (rooms (state_of (handleJoinRoom s c roomId now))) roomId =
     Some \<lparr>r_id = roomId, r_name = JUndefined, r_clients = [c], r_createdAt = now,
           r_creator = JUndefined\<rparr>"
  using assms
  by (auto simp: handleJoinRoom_def join_after_leave_def console_log_def Let_def members_def
      update_conv' set_add_def split: option.splits)

text \<open>
  No event leaves a room without members in the table: \<open>leaveRoom\<close> deletes the room
  when it removes the last member, before the log line that may raise, and the two
  handlers that add a room put a member in.
\<close>

lemma set_add_nonempty: "set_add x xs \<noteq> []"
  by (cases xs) (simp_all add: set_add_def)

lemma nonempty_leaveRoom: "rooms_nonempty s \<Longrightarrow> rooms_nonempty (state_of (leaveRoom s c r))"
  by (auto simp: rooms_nonempty_def leaveRoom_members split: if_splits option.splits)

lemma nonempty_leave_current:
  "rooms_nonempty s \<Longrightarrow> rooms_nonempty (state_of (leave_current s c client))"
  by (simp add: leave_current_def nonempty_leaveRoom)

lemma nonempty_join_after_leave:
  "rooms_nonempty s1 \<Longrightarrow> rooms_nonempty (state_of (join_after_leave s1 c client roomId now))"
  by (auto simp: rooms_nonempty_def join_after_leave_members set_add_nonempty split: if_splits)

lemma nonempty_handleJoinRoom:
  assumes "rooms_nonempty s"
  shows "rooms_nonempty (state_of (handleJoinRoom s c roomId now))"
proof (cases "map_of (clients s) c")
  case None
  then show ?thesis using assms by (simp add: handleJoinRoom_def)
next
  case (Some client)
  have "rooms_nonempty (state_of (leave_current s c client))"
    using assms by (rule nonempty_leave_current)
  then show ?thesis
    by (simp add: handleJoinRoom_state(1) [OF Some] nonempty_join_after_leave)
qed

lemma nonempty_handleCreateRoom:
  "rooms_nonempty s \<Longrightarrow> rooms_nonempty (handleCreateRoom s c roomName roomId now)"
  by (auto simp: rooms_nonempty_def handleCreateRoom_members split: if_splits)

lemma nonempty_relay:
  "rooms_nonempty (handleWebRTCSignaling s c data) = rooms_nonempty s"
  "rooms_nonempty (handleFileTransfer s c data) = rooms_nonempty s"
  "rooms_nonempty (handleDeviceDiscovery s c) = rooms_nonempty s"
  "rooms_nonempty (ws_send s w m) = rooms_nonempty s"
  "rooms_nonempty (s\<lparr>uncaught := x\<rparr>) = rooms_nonempty s"
  "rooms_nonempty (s\<lparr>clients := y\<rparr>) = rooms_nonempty s"
  "rooms_nonempty (s\<lparr>readyState := z\<rparr>) = rooms_nonempty s"
  by (simp_all add: rooms_nonempty_def)

lemma nonempty_handleMessage:
  "rooms_nonempty s \<Longrightarrow> rooms_nonempty (state_of (handleMessage s c data roomId now))"
  by (auto simp: handleMessage_def Let_def nonempty_handleJoinRoom nonempty_handleCreateRoom
      nonempty_relay split: option.splits if_splits)

lemma nonempty_on_close: "rooms_nonempty s \<Longrightarrow> rooms_nonempty (on_close s c)"
  by (auto simp: on_close_state handleClientDisconnect_state nonempty_relay
      nonempty_leave_current split: option.splits)

lemma nonempty_step: "rooms_nonempty s \<Longrightarrow> rooms_nonempty (step s e)"
proof (cases e)
  case (Connection c ip ua date now)
  assume "rooms_nonempty s"
  then show ?thesis
    using Connection by (simp add: step_def onWsConnection_def nonempty_relay)
next
  case (Message c payload roomId now)
  assume n: "rooms_nonempty s"
  show ?thesis
  proof (cases payload)
    case None
    then show ?thesis using n Message by (simp add: step_def on_message_def nonempty_relay)
  next
    case (Some data)
    then show ?thesis
      using n Message nonempty_handleMessage [OF n, of c data roomId now]
      by (simp add: step_def on_message_state nonempty_relay)
  qed
next
  case (Close c)
  assume n: "rooms_nonempty s"
  then show ?thesis using Close by (simp add: step_def nonempty_on_close)
next
  case (Socket c st)
  assume "rooms_nonempty s"
  then show ?thesis using Socket by (simp add: step_def nonempty_relay)
qed

lemma nonempty_run: "rooms_nonempty s \<Longrightarrow> rooms_nonempty (run s es)"
  unfolding run_def by (induction es arbitrary: s) (simp_all add: nonempty_step)

lemma reachable_rooms_nonempty: "rooms_nonempty (run new_server es)"
  by (rule nonempty_run) (simp add: rooms_nonempty_def members_def new_server_def)

subsection \<open>The example runs\<close>

lemmas server_defs = run_def step_def on_message_def on_close_def handleMessage_def
  handleJoinRoom_def join_after_leave_def console_log_def
  handleCreateRoom_def handleWebRTCSignaling_def handleFileTransfer_def handleDeviceDiscovery_def
  handleClientDisconnect_def leaveRoom_def leave_current_def broadcastToRoom_def ws_send_def
  onWsConnection_def new_server_def property_def own_props_def spread_def stringify_def
  set_add_def set_delete_def client_left_def client_joined_def room_joined_def generateQRData_def
  clients_get_def error_reply_def rooms_of_def members_def room_ref_def Let_def

lemmas scenario_defs = one_client_def three_clients_def shared_room_def
  create_room_def join_room_def

lemma room_refD:
  "room_ref s c = Some r \<Longrightarrow> \<exists>client. map_of (clients s) c = Some client \<and> c_room client = r"
  by (auto simp: room_ref_def)

lemma shared_room_facts:
  "room_ref shared_room ''A'' = Some (JStr ''r1'')"
  "room_ref shared_room ''B'' = Some (JStr ''r1'')"
  "room_ref shared_room ''C'' = Some JNull"
  "members shared_room (JStr ''r1'') = Some [''A'', ''B'']"
  "readyState shared_room = (\<lambda>c. OPEN)"
  "uncaught shared_room = None"
  by (simp_all add: scenario_defs server_defs)

lemma app_untouched:
  "activeTransfers (ws_onmessage a Client_left) = activeTransfers a"
  "activeTransfers (ws_onmessage a Client_joined) = activeTransfers a"
  "activeTransfers (ws_onclose a) = activeTransfers a"
  "activeTransfers (conn_onclose a conn) = activeTransfers a"
  by (simp_all add: ws_onmessage_def handleLocalServerMessage_def ws_onclose_def
      conn_onclose_def log_def)

lemma receiver_session: "sender_of receiver ''t1'' = Some ''A''"
  by (simp add: receiver_def sender_of_def ws_onmessage_def handleLocalServerMessage_def
      handleLocalFileTransfer_def two_chunk_start_def app_defs)

subsection \<open>One room for a client\<close>

text \<open>
  When no client creates a room while it is in one and no room id is falsy, a client is
  in at most one room, the one its room reference names. The two ways around it are the
  inputs of the theorems on claims C3 and C4 and of \<open>falsy_room_id_not_left\<close>.
\<close>

lemma room_ref_simps [simp]:
  "room_ref (s\<lparr>sent := x\<rparr>) c = room_ref s c"
  "room_ref (s\<lparr>rooms := y\<rparr>) c = room_ref s c"
  "room_ref (s\<lparr>readyState := z\<rparr>) c = room_ref s c"
  "room_ref (s\<lparr>uncaught := u\<rparr>) c = room_ref s c"
  "room_ref (ws_send s w m) c = room_ref s c"
  "room_ref (broadcastToRoom s r m ex) c = room_ref s c"
  "room_ref (state_of (leaveRoom s c' r)) c = room_ref s c"
  "room_ref (state_of (leave_current s c' client)) c = room_ref s c"
  by (simp_all add: room_ref_def)

lemma room_ref_join_after_leave:
  "room_ref (state_of (join_after_leave s1 c client roomId now)) x =
     (if x = c then Some roomId else room_ref s1 x)"
  by (simp add: room_ref_def join_after_leave_clients update_conv')

lemma room_ref_handleCreateRoom:
  assumes "map_of (clients s) c = Some client"
  shows "room_ref (handleCreateRoom s c roomName roomId now) x =
     (if x = c then Some (JStr roomId) else room_ref s x)"
  using assms
  by (auto simp: handleCreateRoom_def Let_def room_ref_def update_conv' split: option.splits)

lemma consistentD:
  "rooms_consistent s \<Longrightarrow> members s r = Some ms \<Longrightarrow> x \<in> set ms \<Longrightarrow> room_ref s x = Some r \<and> truthy r"
  by (auto simp: rooms_consistent_def)

lemma room_ref_registered:
  "map_of (clients s) c = Some client \<Longrightarrow> room_ref s c = Some (c_room client)"
  by (simp add: room_ref_def)

lemma consistent_leave_current:
  assumes inv: "rooms_consistent s" and reg: "map_of (clients s) c = Some client"
  shows "rooms_consistent (state_of (leave_current s c client))"
    and "members (state_of (leave_current s c client)) r = Some ms \<Longrightarrow> c \<notin> set ms"
proof -
  show "rooms_consistent (state_of (leave_current s c client))"
    using inv
    by (auto simp: rooms_consistent_def members_leave_current split: if_splits option.splits)
  show "c \<notin> set ms" if m: "members (state_of (leave_current s c client)) r = Some ms"
  proof
    assume cin: "c \<in> set ms"
    show False
    proof (cases "truthy (c_room client) \<and> r = c_room client")
      case True
      then show False using m cin
        by (auto simp: members_leave_current split: option.splits if_splits)
    next
      case False
      then have "members s r = Some ms"
        using m by (auto simp: members_leave_current split: if_splits)
      from consistentD [OF inv this cin] room_ref_registered [OF reg] False
      show False by simp
    qed
  qed
qed

lemma set_add_set: "set (set_add x xs) = insert x (set xs)"
  by (auto simp: set_add_def)

lemma consistent_join_after_leave:
  assumes inv1: "rooms_consistent s1" and t: "truthy roomId"
    and out: "\<And>r ms. members s1 r = Some ms \<Longrightarrow> c \<notin> set ms"
  shows "rooms_consistent (state_of (join_after_leave s1 c client roomId now))"
  unfolding rooms_consistent_def
proof (intro allI impI)
  let ?j = "state_of (join_after_leave s1 c client roomId now)"
  fix r ms
  assume m: "members ?j r = Some ms"
  show "truthy r \<and> (\<forall>x \<in> set ms. room_ref ?j x = Some r)"
  proof (cases "r = roomId")
    case True
    have ms: "ms = set_add c (case members s1 roomId of None \<Rightarrow> [] | Some old \<Rightarrow> old)"
      using m True by (simp add: join_after_leave_members)
    have "room_ref ?j x = Some roomId" if "x \<in> set ms" for x
    proof (cases "x = c")
      case True
      then show ?thesis by (simp add: room_ref_join_after_leave)
    next
      case False
      have "x \<in> set (case members s1 roomId of None \<Rightarrow> [] | Some old \<Rightarrow> old)"
        using that ms False by (simp add: set_add_set)
      then obtain old where old: "members s1 roomId = Some old" "x \<in> set old"
        by (cases "members s1 roomId") auto
      from consistentD [OF inv1 old] False show ?thesis
        by (simp add: room_ref_join_after_leave)
    qed
    then show ?thesis using True t by simp
  next
    case False
    then have m1: "members s1 r = Some ms"
      using m by (simp add: join_after_leave_members)
    have "room_ref ?j x = Some r" if "x \<in> set ms" for x
    proof -
      have "x \<noteq> c" using out [OF m1] that by blast
      then show ?thesis
        using consistentD [OF inv1 m1 that] by (simp add: room_ref_join_after_leave)
    qed
    moreover have "truthy r"
      using inv1 m1 by (auto simp: rooms_consistent_def)
    ultimately show ?thesis by simp
  qed
qed

lemma consistent_handleJoinRoom:
  assumes inv: "rooms_consistent s" and t: "truthy roomId"
  shows "rooms_consistent (state_of (handleJoinRoom s c roomId now))"
proof (cases "map_of (clients s) c")
  case None
  then show ?thesis using inv by (simp add: handleJoinRoom_def)
next
  case (Some client)
  let ?s1 = "state_of (leave_current s c client)"
  have inv1: "rooms_consistent ?s1" and out: "\<And>r ms. members ?s1 r = Some ms \<Longrightarrow> c \<notin> set ms"
    using consistent_leave_current [OF inv Some] by blast+
  show ?thesis
    using inv1 consistent_join_after_leave [OF inv1 t out]
    by (simp add: handleJoinRoom_state(1) [OF Some])
qed

lemma consistent_handleCreateRoom:
  assumes inv: "rooms_consistent s" and reg: "map_of (clients s) c = Some client"
    and free: "\<not> truthy (c_room client)" and g: "roomId \<noteq> []"
  shows "rooms_consistent (handleCreateRoom s c roomName roomId now)"
  unfolding rooms_consistent_def
proof (intro allI impI)
  fix r ms
  assume m: "members (handleCreateRoom s c roomName roomId now) r = Some ms"
  show "truthy r \<and> (\<forall>x \<in> set ms. room_ref (handleCreateRoom s c roomName roomId now) x = Some r)"
  proof (cases "r = JStr roomId")
    case True
    then show ?thesis
      using m g by (auto simp: handleCreateRoom_members room_ref_handleCreateRoom [OF reg])
  next
    case False
    then have m0: "members s r = Some ms" using m by (simp add: handleCreateRoom_members)
    have "room_ref (handleCreateRoom s c roomName roomId now) x = Some r" if "x \<in> set ms" for x
    proof -
      from consistentD [OF inv m0 that] have x: "room_ref s x = Some r" "truthy r" by simp_all
      then have "x \<noteq> c" using room_ref_registered [OF reg] free by auto
      then show ?thesis using x by (simp add: room_ref_handleCreateRoom [OF reg])
    qed
    moreover have "truthy r" using inv m0 by (auto simp: rooms_consistent_def)
    ultimately show ?thesis by simp
  qed
qed

lemma consistent_unregister:
  assumes inv: "rooms_consistent s" and out: "\<And>r ms. members s r = Some ms \<Longrightarrow> c \<notin> set ms"
  shows "rooms_consistent (s\<lparr>clients := AList.delete c (clients s)\<rparr>)"
  unfolding rooms_consistent_def
proof (intro allI impI)
  fix r ms
  assume "members (s\<lparr>clients := AList.delete c (clients s)\<rparr>) r = Some ms"
  then have m: "members s r = Some ms" by simp
  have "room_ref (s\<lparr>clients := AList.delete c (clients s)\<rparr>) x = Some r" if "x \<in> set ms" for x
  proof -
    have "x \<noteq> c" using out [OF m] that by blast
    then show ?thesis
      using consistentD [OF inv m that] by (simp add: room_ref_def delete_conv')
  qed
  moreover have "truthy r" using inv m by (auto simp: rooms_consistent_def)
  ultimately show "truthy r \<and> (\<forall>x \<in> set ms. room_ref (s\<lparr>clients := AList.delete c (clients s)\<rparr>) x = Some r)"
    by simp
qed

lemma consistent_handleClientDisconnect:
  assumes inv: "rooms_consistent s"
  shows "rooms_consistent (state_of (handleClientDisconnect s c))"
proof (cases "map_of (clients s) c")
  case None
  have "c \<notin> set ms" if m: "members s r = Some ms" for r ms
  proof
    assume "c \<in> set ms"
    from consistentD [OF inv m this] None show False by (simp add: room_ref_def)
  qed
  then show ?thesis
    using None consistent_unregister [OF inv] by (simp add: handleClientDisconnect_state)
next
  case (Some client)
  let ?s1 = "state_of (leave_current s c client)"
  have inv1: "rooms_consistent ?s1" and out: "\<And>r ms. members ?s1 r = Some ms \<Longrightarrow> c \<notin> set ms"
    using consistent_leave_current [OF inv Some] by blast+
  show ?thesis
    using Some inv1 consistent_unregister [OF inv1 out]
    by (simp add: handleClientDisconnect_state)
qed

lemma room_ref_relay [simp]:
  "room_ref (handleWebRTCSignaling s c data) x = room_ref s x"
  "room_ref (handleFileTransfer s c data) x = room_ref s x"
  "room_ref (handleDeviceDiscovery s c) x = room_ref s x"
  by (auto simp: handleWebRTCSignaling_def handleFileTransfer_def handleDeviceDiscovery_def
      clients_get_def split: option.splits)

lemma consistent_relay:
  "rooms_consistent (handleWebRTCSignaling s c data) = rooms_consistent s"
  "rooms_consistent (handleFileTransfer s c data) = rooms_consistent s"
  "rooms_consistent (handleDeviceDiscovery s c) = rooms_consistent s"
  "rooms_consistent (ws_send s w m) = rooms_consistent s"
  "rooms_consistent (s\<lparr>uncaught := u\<rparr>) = rooms_consistent s"
  "rooms_consistent (s\<lparr>readyState := z\<rparr>) = rooms_consistent s"
  by (simp_all add: rooms_consistent_def)

lemma consistent_handleMessage:
  assumes inv: "rooms_consistent s" and ok: "orderly s (Message c (Some data) roomId now)"
  shows "rooms_consistent (state_of (handleMessage s c data roomId now))"
proof (cases "map_of (clients s) c")
  case None
  then show ?thesis using inv by (simp add: handleMessage_def)
next
  case (Some client)
  note reg = Some
  show ?thesis
  proof (cases "property data ''type'' = JStr ''create-room''")
    case True
    then have "\<not> truthy (c_room client)" "roomId \<noteq> []"
      using ok room_ref_registered [OF reg] by simp_all
    then show ?thesis
      using inv reg True consistent_handleCreateRoom [OF inv reg]
      by (auto simp: handleMessage_def Let_def split: if_splits)
  next
    case False
    then show ?thesis
      using reg ok inv consistent_handleJoinRoom [OF inv]
      by (auto simp: handleMessage_def Let_def consistent_relay split: if_splits)
  qed
qed

lemma consistent_step:
  assumes inv: "rooms_consistent s" and ok: "orderly s e"
  shows "rooms_consistent (step s e)"
proof (cases e)
  case (Connection c ip ua date now)
  have fresh: "map_of (clients s) c = None" using ok Connection by simp
  have "room_ref (onWsConnection s c ip ua date now) x = (if x = c then Some JNull else room_ref s x)" for x
    by (simp add: onWsConnection_def room_ref_def update_conv')
  moreover have "members (onWsConnection s c ip ua date now) r = members s r" for r
    by (simp add: onWsConnection_def)
  moreover have "x \<noteq> c" if "members s r = Some ms" "x \<in> set ms" for x r ms
    using consistentD [OF inv that] fresh by (auto simp: room_ref_def)
  ultimately show ?thesis
    using inv Connection by (auto simp: step_def rooms_consistent_def)
next
  case (Message c payload roomId now)
  show ?thesis
  proof (cases payload)
    case None
    then show ?thesis using inv Message by (simp add: step_def on_message_def consistent_relay)
  next
    case (Some data)
    then show ?thesis
      using inv consistent_handleMessage [OF inv, of c data roomId now] ok Message
      by (simp add: step_def on_message_state consistent_relay)
  qed
next
  case (Close c)
  then show ?thesis
    using inv consistent_handleClientDisconnect [OF inv, of c]
    by (simp add: step_def on_close_state consistent_relay)
next
  case (Socket c st)
  then show ?thesis using inv by (simp add: step_def consistent_relay)
qed

lemma consistent_run:
  "rooms_consistent s \<Longrightarrow> orderly_run s es \<Longrightarrow> rooms_consistent (run s es)"
  unfolding run_def by (induction es arbitrary: s) (simp_all add: consistent_step)

lemma at_most_one_room:
  assumes "orderly_run new_server es"
    and "members (run new_server es) r1 = Some ms1" and "c \<in> set ms1"
    and "members (run new_server es) r2 = Some ms2" and "c \<in> set ms2"
  shows "r1 = r2 \<and> room_ref (run new_server es) c = Some r1"
proof -
  have "rooms_consistent new_server"
    by (simp add: rooms_consistent_def members_def new_server_def)
  then have inv: "rooms_consistent (run new_server es)"
    using assms(1) by (rule consistent_run)
  from consistentD [OF inv assms(2,3)] consistentD [OF inv assms(4,5)]
  show ?thesis by simp
qed

lemma orderly_shared_room:
  "orderly_run new_server [Connection ''A'' ''10.0.0.1'' ''ua'' ''2025-01-01T00:00:00.000Z'' 0,
     Connection ''B'' ''10.0.0.2'' ''ua'' ''2025-01-01T00:00:01.000Z'' 1000,
     Connection ''C'' ''10.0.0.3'' ''ua'' ''2025-01-01T00:00:02.000Z'' 2000,
     Message ''A'' create_room ''r1'' 1, Message ''B'' (join_room ''r1'') ''r2'' 2]"
  by (simp add: scenario_defs server_defs)

lemma falsy_room_id_not_left:
  "rooms_of (run one_client [Message ''A'' (join_room '''') ''r1'' 1,
      Message ''A'' (join_room ''x'') ''r2'' 2]) ''A'' = [JStr '''', JStr ''x'']"
  by (simp add: scenario_defs server_defs)

text \<open>
  A payload that parses to anything but \<open>null\<close> and whose \<open>type\<close> is none of the nine
  kinds is logged and dropped when its \<open>type\<close> can be written into the log line: the
  state does not change and no reply is sent. When it cannot, the log line raises and the
  sender gets the error reply.
\<close>

lemma unknown_kind_dropped:
  assumes "data \<noteq> JNull" and "data \<noteq> JUndefined"
    and "property data ''type'' \<notin> JStr ` {''join-room'', ''create-room'', ''webrtc-offer'',
       ''webrtc-answer'', ''webrtc-ice-candidate'', ''file-transfer-start'', ''file-chunk'',
       ''file-complete'', ''device-discovery''}"
  shows "on_message s c (Some data) roomId now =
     (if map_of (clients s) c \<noteq> None \<and> \<not> stringifiable (property data ''type'')
      then ws_send s c error_reply else s)"
  using assms
  by (auto simp: on_message_def handleMessage_def console_log_def Let_def split: option.splits)

text \<open>
  The log lines that raise. A join of a room id that cannot be written into the log line
  adds the joiner to the room and sets its reference, then raises: nobody is notified and
  the joiner gets the error reply. When the client that closes is the last member of such
  a room, the room is deleted and the log line raises in the close listener, which catches
  nothing: the client stays registered and the exception is uncaught.
\<close>

lemma join_unprintable_room_id:
  assumes reg: "map_of (clients s) c = Some client"
    and kind: "property data ''type'' = JStr ''join-room''"
    and prev: "stringifiable (c_room client)"
    and bad: "\<not> stringifiable (property data ''roomId'')"
  shows "\<exists>s1. leave_current s c client = Inr s1
     \<and> sent (on_message s c (Some data) g now) = sent s1 @ [(c, JObj error_reply)]
     \<and> members (on_message s c (Some data) g now) (property data ''roomId'') =
         Some (set_add c (case members s1 (property data ''roomId'') of
                            None \<Rightarrow> [] | Some old \<Rightarrow> old))
     \<and> room_ref (on_message s c (Some data) g now) c = Some (property data ''roomId'')"
proof -
  let ?r = "property data ''roomId''"
  let ?s1 = "state_of (leave_current s c client)"
  let ?j = "join_after_leave ?s1 c client ?r now"
  have nl: "\<not> raises (leave_current s c client)"
    using prev by (simp add: leave_current_raises)
  then have l: "leave_current s c client = Inr ?s1" by (rule not_raises)
  have om: "on_message s c (Some data) g now = ws_send (state_of ?j) c error_reply"
    using nl bad
    by (simp add: on_message_state handleMessage_join [OF reg kind] handleJoinRoom_state [OF reg])
  have "sent (state_of ?j) = sent ?s1"
    using bad
    by (auto simp: join_after_leave_def Let_def console_log_def update_conv' split: option.splits)
  then have "sent (on_message s c (Some data) g now) = sent ?s1 @ [(c, JObj error_reply)]"
    by (simp add: om ws_send_def stringify_def error_reply_def)
  then show ?thesis
    using l
    by (intro exI [of _ ?s1]) (simp add: om join_after_leave_members room_ref_join_after_leave)
qed

lemma close_unprintable_room:
  assumes reg: "map_of (clients s) c = Some client" and t: "truthy (c_room client)"
    and bad: "\<not> stringifiable (c_room client)"
    and room: "members s (c_room client) = Some ms" and last: "removeAll c ms = []"
  shows "uncaught (on_close s c) = Some TypeError
     \<and> map_of (clients (on_close s c)) c = Some client
     \<and> members (on_close s c) (c_room client) = None
     \<and> sent (on_close s c) = sent s"
proof -
  have lc: "leave_current s c client = leaveRoom s c (c_room client)"
    using t by (simp add: leave_current_def)
  have r: "raises (leave_current s c client)"
    using t bad room last by (simp add: leave_current_raises)
  then have "on_close s c = (state_of (leaveRoom s c (c_room client)))\<lparr>uncaught := Some TypeError\<rparr>"
    using reg by (simp add: on_close_state handleClientDisconnect_state lc)
  then show ?thesis
    using reg room last by (simp add: leaveRoom_members leaveRoom_sent)
qed

subsection \<open>Room membership\<close>

text \<open>
  Claim C3 at the input where the code departs from it. Client A connects and sends
  create-room twice; \<open>generateRoomId\<close> returns \<open>r1\<close> and then \<open>r2\<close>. \<open>handleCreateRoom\<close>
  does not take A out of \<open>r1\<close>, as \<open>handleJoinRoom\<close> would: A, still registered, is in the
  member sets of both rooms, and its room reference names only \<open>r2\<close>.
\<close>

theorem create_room_twice_two_rooms:
  "rooms_of created_twice ''A'' = [JStr ''r1'', JStr ''r2'']
   \<and> length (rooms_of created_twice ''A'') = 2
   \<and> room_ref created_twice ''A'' = Some (JStr ''r2'')"
  by (simp add: created_twice_def scenario_defs server_defs)

text \<open>
  Claim C4 at the input where the code departs from it. After the two create-room
  messages of A, room \<open>r1\<close> has A as its only member. A's connection closes: the disconnect
  leaves the room of A's reference, \<open>r2\<close>, which is deleted, and unregisters A. Room \<open>r1\<close>
  stays in the table with the member set \<open>{A}\<close>, although its last member has disconnected.
\<close>

theorem room_outlives_last_member:
  "members created_twice (JStr ''r1'') = Some [''A'']
   \<and> room_ref (run created_twice [Close ''A'']) ''A'' = None
   \<and> members (run created_twice [Close ''A'']) (JStr ''r2'') = None
   \<and> members (run created_twice [Close ''A'']) (JStr ''r1'') = Some [''A'']"
  by (simp add: created_twice_def scenario_defs server_defs)

subsection \<open>Relaying\<close>

text \<open>
  Claim C5 at the input where the code departs from it. A and B are in room \<open>r1\<close>; A
  sends a webrtc-offer whose payload has a \<open>from\<close> property naming C. The message that
  B gets carries \<open>from = C\<close>, not A's id: \<open>handleWebRTCSignaling\<close> spreads the payload
  after setting \<open>from\<close>. \<open>handleFileTransfer\<close> sets \<open>from\<close> after the spread, and the same
  payload relayed as a file message carries \<open>from = A\<close>.
\<close>

theorem signaling_from_overridden:
  "members shared_room (JStr ''r1'') = Some [''A'', ''B'']
   \<and> newly_sent shared_room [Message ''A'' (Some (JObj [(''type'', JStr ''webrtc-offer''),
         (''from'', JStr ''C''), (''sdp'', JStr ''x'')])) ''r3'' 3]
     = [(''B'', JObj [(''type'', JStr ''webrtc-offer''), (''from'', JStr ''C''), (''sdp'', JStr ''x'')])]
   \<and> property (signal_relay ''A'' (JObj [(''type'', JStr ''webrtc-offer''),
         (''from'', JStr ''C''), (''sdp'', JStr ''x'')])) ''from'' = JStr ''C''
   \<and> property (file_relay ''A'' (JObj [(''type'', JStr ''file-chunk''),
         (''from'', JStr ''C''), (''chunk'', JStr ''x'')])) ''from'' = JStr ''A''"
  by (simp add: newly_sent_def scenario_defs server_defs signal_relay_def file_relay_def)




subsection \<open>Joining\<close>

text \<open>
  Claim C7, as the code has it, from the message listener on. A registered client \<open>c\<close>
  sends a join-room message; the room id \<open>roomId\<close> of the message and the room reference
  that \<open>c\<close> has are primitive values. Leaving the previous room does not raise and gives the
  state \<open>s1\<close>. The room then has the member list \<open>ms\<close>: the members it had in \<open>s1\<close> (none
  if the room was not there), with \<open>c\<close> added. After what leaving may have sent, the join
  sends a client-joined event listing \<open>ms\<close> to every member other than \<open>c\<close> that is
  registered with an open socket, and then a room-joined reply to \<open>c\<close> listing \<open>ms\<close>
  without \<open>c\<close>; nothing else is sent.
\<close>

theorem join_room_notifications:
  assumes reg: "map_of (clients s) c = Some client"
    and kind: "property data ''type'' = JStr ''join-room''"
    and rid: "property data ''roomId'' = roomId" and prim: "primitive roomId"
    and prev: "primitive (c_room client)"
  shows "\<exists>s1 ms. leave_current s c client = Inr s1
     \<and> ms = set_add c (case members s1 roomId of None \<Rightarrow> [] | Some old \<Rightarrow> old)
     \<and> members (on_message s c (Some data) g now) roomId = Some ms
     \<and> c \<in> set ms
     \<and> sent (on_message s c (Some data) g now) =
         sent s1
         @ map (\<lambda>r. (r, stringify (client_joined c ms))) (recipients s (Some c) ms)
         @ [(c, stringify (room_joined roomId c ms))]
     \<and> property (stringify (client_joined c ms)) ''roomClients'' = JArr (map JStr ms)
     \<and> property (stringify (room_joined roomId c ms)) ''clients'' =
         JArr (map JStr (filter (\<lambda>i. i \<noteq> c) ms))
     \<and> c \<notin> set (filter (\<lambda>i. i \<noteq> c) ms)"
proof -
  let ?s1 = "state_of (leave_current s c client)"
  let ?old = "case members ?s1 roomId of None \<Rightarrow> [] | Some old \<Rightarrow> old"
  let ?ms = "set_add c ?old"
  let ?j = "join_after_leave ?s1 c client roomId now"
  have nl: "\<not> raises (leave_current s c client)"
    using prev by (simp add: leave_current_raises primitive_stringifiable)
  then have l: "leave_current s c client = Inr ?s1" by (rule not_raises)
  have sr: "stringifiable roomId" using prim by (rule primitive_stringifiable)
  have dispatch: "handleMessage s c data g now = handleJoinRoom s c roomId now"
    using handleMessage_join [OF reg kind] rid by simp
  have "\<not> raises (handleJoinRoom s c roomId now)"
    using nl sr by (simp add: handleJoinRoom_state(2) [OF reg])
  then have om: "on_message s c (Some data) g now = state_of ?j"
    using nl by (simp add: on_message_state dispatch handleJoinRoom_state(1) [OF reg])
  have reg1: "map_of (clients ?s1) c = Some client" using reg by simp
  have rc: "recipients ?s1 (Some c) ?ms = recipients s (Some c) ?ms"
    by (intro recipients_cong) simp_all
  have cin: "c \<in> set ?ms" by (simp add: set_add_def)
  have mem: "members (on_message s c (Some data) g now) roomId = Some ?ms"
    by (simp add: om join_after_leave_members)
  have snt: "sent (on_message s c (Some data) g now) =
         sent ?s1 @ map (\<lambda>r. (r, stringify (client_joined c ?ms))) (recipients s (Some c) ?ms)
         @ [(c, stringify (room_joined roomId c ?ms))]"
    unfolding om join_after_leave_sent [OF sr reg1] rc by simp
  show ?thesis
    using l cin mem snt property_client_joined(1) [of c ?ms]
      property_room_joined(1) [of roomId c ?ms]
    by (intro exI [of _ ?s1] exI [of _ ?ms]) simp
qed

text \<open>
  The theorem at the room of A and B, which C joins: A and B get client-joined with the
  list A, B, C, and C gets room-joined with the list A, B.
\<close>

theorem join_room_notifications_witness:
  "room_ref shared_room ''C'' = Some JNull
   \<and> property (JObj [(''type'', JStr ''join-room''), (''roomId'', JStr ''r1'')]) ''type''
      = JStr ''join-room''
   \<and> property (JObj [(''type'', JStr ''join-room''), (''roomId'', JStr ''r1'')]) ''roomId''
      = JStr ''r1''
   \<and> primitive (JStr ''r1'') \<and> primitive JNull
   \<and> members (on_message shared_room ''C''
        (Some (JObj [(''type'', JStr ''join-room''), (''roomId'', JStr ''r1'')])) ''r3'' 3)
        (JStr ''r1'') = Some [''A'', ''B'', ''C'']
   \<and> sent (on_message shared_room ''C''
        (Some (JObj [(''type'', JStr ''join-room''), (''roomId'', JStr ''r1'')])) ''r3'' 3)
      = sent shared_room @
        [(''A'', stringify (client_joined ''C'' [''A'', ''B'', ''C''])),
         (''B'', stringify (client_joined ''C'' [''A'', ''B'', ''C''])),
         (''C'', stringify (room_joined (JStr ''r1'') ''C'' [''A'', ''B'', ''C'']))]
   \<and> property (stringify (room_joined (JStr ''r1'') ''C'' [''A'', ''B'', ''C''])) ''clients''
      = JArr [JStr ''A'', JStr ''B'']"
proof -
  let ?data = "JObj [(''type'', JStr ''join-room''), (''roomId'', JStr ''r1'')]"
  obtain client where c: "map_of (clients shared_room) ''C'' = Some client" "c_room client = JNull"
    using room_refD [OF shared_room_facts(3)] by blast
  have k: "property ?data ''type'' = JStr ''join-room''" by (simp add: property_def)
  have i: "property ?data ''roomId'' = JStr ''r1''" by (simp add: property_def)
  have p: "primitive (JStr ''r1'')" by simp
  have q: "primitive (c_room client)" using c(2) by simp
  have l: "leave_current shared_room ''C'' client = Inr shared_room"
    using c(2) by (simp add: leave_current_def)
  have rc: "recipients shared_room (Some ''C'') [''A'', ''B'', ''C''] = [''A'', ''B'']"
    using room_refD [OF shared_room_facts(1)] room_refD [OF shared_room_facts(2)]
    by (auto simp: recipients_def shared_room_facts)
  from join_room_notifications [OF c(1) k i p q, of "''r3''" 3]
  obtain s1 ms where j: "leave_current shared_room ''C'' client = Inr s1"
      "ms = set_add ''C'' (case members s1 (JStr ''r1'') of None \<Rightarrow> [] | Some old \<Rightarrow> old)"
      "members (on_message shared_room ''C'' (Some ?data) ''r3'' 3) (JStr ''r1'') = Some ms"
      "sent (on_message shared_room ''C'' (Some ?data) ''r3'' 3) =
         sent s1 @ map (\<lambda>r. (r, stringify (client_joined ''C'' ms)))
           (recipients shared_room (Some ''C'') ms)
         @ [(''C'', stringify (room_joined (JStr ''r1'') ''C'' ms))]"
      "property (stringify (room_joined (JStr ''r1'') ''C'' ms)) ''clients'' =
         JArr (map JStr (filter (\<lambda>i. i \<noteq> ''C'') ms))"
    by blast
  have s1: "s1 = shared_room" using j(1) l by simp
  have ms: "ms = [''A'', ''B'', ''C'']"
    unfolding j(2) s1 by (simp add: shared_room_facts set_add_def)
  show ?thesis
    using j(3,4,5) shared_room_facts(3) k i unfolding ms s1 by (simp add: rc)
qed

text \<open>
  Claim C7 as it is stated fails: B is a member of \<open>r1\<close> and registered, but its socket is
  closing when C joins. The join sends client-joined to A and room-joined to C; B, a
  current member other than the joiner, gets nothing.
\<close>

theorem join_room_counterexample:
  "members (run shared_room [Socket ''B'' CLOSING]) (JStr ''r1'') = Some [''A'', ''B'']
   \<and> room_ref (run shared_room [Socket ''B'' CLOSING]) ''B'' = Some (JStr ''r1'')
   \<and> members (run shared_room [Socket ''B'' CLOSING, Message ''C'' (join_room ''r1'') ''r3'' 3])
        (JStr ''r1'') = Some [''A'', ''B'', ''C'']
   \<and> newly_sent (run shared_room [Socket ''B'' CLOSING]) [Message ''C'' (join_room ''r1'') ''r3'' 3]
     = [(''A'', stringify (client_joined ''C'' [''A'', ''B'', ''C''])),
        (''C'', stringify (room_joined (JStr ''r1'') ''C'' [''A'', ''B'', ''C'']))]"
  by (simp add: newly_sent_def scenario_defs server_defs)

subsection \<open>Malformed payloads\<close>

text \<open>
  Claim C8, as the code has it. When \<open>JSON.parse\<close> raises on a payload, the server's state
  after the message is the state before it with one entry more in the log of sent
  messages: the error reply, on the sender's socket. No socket state changes, so the
  connection is not closed, and no other client is sent anything. The payload \<open>null\<close>,
  which parses but makes the dispatch raise, gets the same reply when it comes from a
  registered client.
\<close>

theorem malformed_payload_reply:
  "on_message s c None roomId now = s\<lparr>sent := sent s @ [(c, JObj error_reply)]\<rparr>
   \<and> (map_of (clients s) c \<noteq> None \<longrightarrow>
        on_message s c (Some JNull) roomId now = s\<lparr>sent := sent s @ [(c, JObj error_reply)]\<rparr>)"
  by (auto simp: on_message_def handleMessage_def ws_send_def stringify_def error_reply_def)

text \<open>
  The theorem at a server with the one client A: both an unparsable payload and \<open>null\<close>
  are answered with the error reply to A.
\<close>

theorem malformed_payload_reply_witness:
  "room_ref one_client ''A'' = Some JNull
   \<and> sent (on_message one_client ''A'' (Some JNull) ''r1'' 1)
      = sent one_client @ [(''A'', JObj [(''type'', JStr ''error''),
           (''message'', JStr ''Invalid JSON message'')])]
   \<and> sent (on_message one_client ''A'' None ''r1'' 1)
      = sent one_client @ [(''A'', JObj [(''type'', JStr ''error''),
           (''message'', JStr ''Invalid JSON message'')])]"
proof -
  have r: "room_ref one_client ''A'' = Some JNull"
    by (simp add: scenario_defs server_defs)
  then have "map_of (clients one_client) ''A'' \<noteq> None"
    using room_refD by fastforce
  then show ?thesis
    using r malformed_payload_reply [of one_client "''A''" "''r1''" 1]
    by (simp add: error_reply_def)
qed

text \<open>
  Claim C8 as it is stated fails: the registered client A, whose socket is open, sends
  the payload \<open>5\<close>, then an object of the unknown kind \<open>ping\<close>, then an object that has no
  \<open>type\<close> at all. Each parses, none has the structure of a message, and none is answered:
  the default branch of \<open>handleMessage\<close> only writes a log line.
\<close>

theorem malformed_payload_counterexample:
  "room_ref one_client ''A'' = Some JNull
   \<and> readyState one_client ''A'' = OPEN
   \<and> newly_sent one_client [Message ''A'' (Some (JNum 5)) ''r1'' 1] = []
   \<and> newly_sent one_client [Message ''A'' (Some (JObj [(''type'', JStr ''ping'')])) ''r1'' 1] = []
   \<and> newly_sent one_client [Message ''A'' (Some (JObj [(''kind'', JStr ''join-room'')])) ''r1'' 1] = []"
  by (simp add: newly_sent_def scenario_defs server_defs)

subsection \<open>Disconnecting\<close>

text \<open>
  Claim C9, as the code has it, from the close listener on. A registered client \<open>c\<close> whose
  room reference is a truthy primitive value naming an existing room disconnects. Then \<open>c\<close>
  is unregistered and the other registrations stay; \<open>c\<close> is taken out of that room, which
  is deleted when no member is left, and the other rooms stay; when members are left,
  client-left is sent to those that are registered with an open socket, and nothing else
  is sent; the listener raises nothing. The server keeps no transfer sessions. On a
  receiving application the session table is not changed by a client-left message, by
  the closing of the connection to the server or by the closing of a peer connection.
\<close>

theorem disconnect_cleanup:
  assumes reg: "map_of (clients s) c = Some client" and inroom: "truthy (c_room client)"
    and prim: "primitive (c_room client)"
    and room: "members s (c_room client) = Some ms"
  shows "map_of (clients (on_close s c)) c = None
    \<and> (\<forall>x. x \<noteq> c \<longrightarrow> map_of (clients (on_close s c)) x = map_of (clients s) x)
    \<and> members (on_close s c) (c_room client) =
        (if removeAll c ms = [] then None else Some (removeAll c ms))
    \<and> (\<forall>r. r \<noteq> c_room client \<longrightarrow> members (on_close s c) r = members s r)
    \<and> sent (on_close s c) = sent s @
        (if removeAll c ms = [] then []
         else map (\<lambda>x. (x, stringify (client_left c (removeAll c ms))))
                (recipients s None (removeAll c ms)))
    \<and> uncaught (on_close s c) = uncaught s
    \<and> activeTransfers (ws_onmessage a Client_left) = activeTransfers a
    \<and> activeTransfers (ws_onclose a) = activeTransfers a
    \<and> activeTransfers (conn_onclose a conn) = activeTransfers a"
proof -
  let ?l = "leaveRoom s c (c_room client)"
  have lc: "leave_current s c client = ?l" using inroom by (simp add: leave_current_def)
  have nl: "\<not> raises (leave_current s c client)"
    using prim by (simp add: leave_current_raises primitive_stringifiable)
  have oc: "on_close s c = (state_of ?l)\<lparr>clients := AList.delete c (clients s)\<rparr>"
    using reg nl by (simp add: on_close_state handleClientDisconnect_state lc)
  have 1: "map_of (clients (on_close s c)) c = None"
    by (simp add: oc delete_conv')
  have 2: "\<forall>x. x \<noteq> c \<longrightarrow> map_of (clients (on_close s c)) x = map_of (clients s) x"
    by (simp add: oc delete_conv')
  have 3: "members (on_close s c) (c_room client) =
      (if removeAll c ms = [] then None else Some (removeAll c ms))"
    using room by (simp add: oc leaveRoom_members)
  have 4: "\<forall>r. r \<noteq> c_room client \<longrightarrow> members (on_close s c) r = members s r"
    by (simp add: oc leaveRoom_members)
  have 5: "sent (on_close s c) = sent s @
        (if removeAll c ms = [] then []
         else map (\<lambda>x. (x, stringify (client_left c (removeAll c ms))))
                (recipients s None (removeAll c ms)))"
    using room by (simp add: oc leaveRoom_sent)
  have 6: "uncaught (on_close s c) = uncaught s"
    by (simp add: oc)
  from 1 2 3 4 5 6 app_untouched(1,3,4) [of a] show ?thesis by simp
qed

text \<open>
  The theorem at the room of A and B, when A disconnects: A is unregistered, the room keeps
  B, B is sent client-left, and the receiver's sessions are as before.
\<close>

theorem disconnect_cleanup_witness:
  "room_ref shared_room ''A'' = Some (JStr ''r1'') \<and> truthy (JStr ''r1'')
   \<and> primitive (JStr ''r1'')
   \<and> members shared_room (JStr ''r1'') = Some [''A'', ''B'']
   \<and> map_of (clients (on_close shared_room ''A'')) ''A'' = None
   \<and> members (on_close shared_room ''A'') (JStr ''r1'') = Some [''B'']
   \<and> sent (on_close shared_room ''A'')
      = sent shared_room @ [(''B'', stringify (client_left ''A'' [''B'']))]
   \<and> uncaught (on_close shared_room ''A'') = None
   \<and> activeTransfers (ws_onmessage receiver Client_left) = activeTransfers receiver"
proof -
  obtain client where c: "map_of (clients shared_room) ''A'' = Some client"
      "c_room client = JStr ''r1''"
    using room_refD [OF shared_room_facts(1)] by blast
  have r: "truthy (c_room client)" using c(2) by simp
  have p: "primitive (c_room client)" using c(2) by simp
  have m: "members shared_room (c_room client) = Some [''A'', ''B'']"
    using c(2) shared_room_facts(4) by simp
  have rc: "recipients shared_room None [''B''] = [''B'']"
    using room_refD [OF shared_room_facts(2)]
    by (auto simp: recipients_def shared_room_facts)
  show ?thesis
    using disconnect_cleanup [OF c(1) r p m, of receiver] shared_room_facts(1,4,6) c(2)
    by (simp add: rc)
qed

text \<open>
  Claim C9 as it is stated fails: B's application holds the session \<open>t1\<close> of a transfer
  that A started. A disconnects; the server unregisters A and sends client-left to B.
  After B's application has handled that message, and also after its own connection to the
  server has closed, the session \<open>t1\<close> with sender A is still in its table.
\<close>

theorem disconnect_counterexample:
  "sender_of receiver ''t1'' = Some ''A''
   \<and> room_ref (run shared_room [Close ''A'']) ''A'' = None
   \<and> newly_sent shared_room [Close ''A''] = [(''B'', stringify (client_left ''A'' [''B'']))]
   \<and> sender_of (ws_onmessage receiver Client_left) ''t1'' = Some ''A''
   \<and> sender_of (ws_onclose receiver) ''t1'' = Some ''A''"
  using receiver_session
  by (simp add: newly_sent_def scenario_defs server_defs sender_of_def app_untouched)

end
